theory Spec2Isabelle
  imports Complex_Main "HOL-Library.Char_ord" "HOL-Library.List_Lexorder"
    "HOL-Library.AList" "HOL-Library.Multiset"
begin

section \<open>Values handled by check\_model\_performance.py\<close>

text \<open>
  The script reads untyped Python values from \<^verbatim>\<open>joblib.load\<close> and branches on their
  shape with \<^verbatim>\<open>isinstance\<close>. A float is represented by the exact rational it denotes,
  or by one of the three special values; comparisons of Python numbers (also between an
  int and a float) are exact, so the order below is the order the interpreter uses.
  Dictionaries are association lists in insertion order; their keys are strings.
\<close>

datatype pyfloat = Fin rat | PInf | NInf | NaN

datatype pyval =
    PNone
  | PBool bool
  | PInt int
  | PFloat pyfloat
  | PStr string
  | PList "pyval list"
  | PDict "(string \<times> pyval) list"

text \<open>Exceptions that can arise inside the \<^verbatim>\<open>try\<close> block (lines 26-62), and the
  \<^verbatim>\<open>OSError\<close> of \<^verbatim>\<open>os.listdir\<close>, which is raised outside it.\<close>

datatype pyexc =
    LoadError string
  | KeyError string
  | TypeError
  | ValueError
  | OverflowError
  | OSError

text \<open>One constructor per \<^verbatim>\<open>print\<close> call of the source. The digits of a formatted
  number are not modelled: a metric line carries the value that is formatted.\<close>

datatype line =
    PerfHeader string
  | BestModelLine "string option"
  | PctLine string pyval
  | CvLine pyval pyval
  | ErrorLine string pyexc
  | FilesHeader string
  | FileLine string
  | SavedLine

subsection \<open>Numbers: comparison and formatting\<close>

fun as_num :: "pyval \<Rightarrow> pyfloat option" where
  "as_num (PBool b) = Some (Fin (if b then 1 else 0))"
| "as_num (PInt n) = Some (Fin (of_int n))"
| "as_num (PFloat x) = Some x"
| "as_num _ = None"

fun fl_gt :: "pyfloat \<Rightarrow> pyfloat \<Rightarrow> bool" where
  "fl_gt (Fin a) (Fin b) = (b < a)"
| "fl_gt (Fin a) NInf = True"
| "fl_gt PInf (Fin b) = True"
| "fl_gt PInf NInf = True"
| "fl_gt _ _ = False"

text \<open>\<^verbatim>\<open>a > b\<close> where \<open>b\<close> is a number: \<open>None\<close> stands for the \<^verbatim>\<open>TypeError\<close>
  raised when \<open>a\<close> is not a number. In the scan \<open>b\<close> is \<^verbatim>\<open>best_f1\<close>, which is \<open>0\<close>
  or a value that has passed this test, hence always a number.\<close>

definition py_gt :: "pyval \<Rightarrow> pyval \<Rightarrow> bool option" where
  "py_gt a b =
     (case as_num a of
        None \<Rightarrow> None
      | Some x \<Rightarrow> (case as_num b of None \<Rightarrow> None | Some y \<Rightarrow> Some (fl_gt x y)))"

text \<open>The least magnitude of an int that does not convert to a float.\<close>

definition dbl_limit :: int where
  "dbl_limit = 2 ^ 1024 - 2 ^ 970"

text \<open>Formatting with the presentation type \<^verbatim>\<open>f\<close> (\<^verbatim>\<open>:.4f\<close>, \<^verbatim>\<open>:.2f\<close>):
  \<open>None\<close> when a string is produced, otherwise the exception raised.\<close>

fun fmt_f :: "pyval \<Rightarrow> pyexc option" where
  "fmt_f (PBool b) = None"
| "fmt_f (PInt n) = (if \<bar>n\<bar> < dbl_limit then None else Some OverflowError)"
| "fmt_f (PFloat x) = None"
| "fmt_f (PStr s) = Some ValueError"
| "fmt_f PNone = Some TypeError"
| "fmt_f (PList xs) = Some TypeError"
| "fmt_f (PDict m) = Some TypeError"

text \<open>\<^verbatim>\<open>{v:.4f} ({v*100:.2f}%)\<close>: the value is formatted, then multiplied by 100 and
  formatted again. The product of a float is a float, which always formats.\<close>

definition fmt_pct :: "pyval \<Rightarrow> pyexc option" where
  "fmt_pct v =
     (case fmt_f v of
        Some e \<Rightarrow> Some e
      | None \<Rightarrow>
          (case v of
             PInt n \<Rightarrow> fmt_f (PInt (n * 100))
           | PBool b \<Rightarrow> fmt_f (PInt ((if b then 1 else 0) * 100))
           | _ \<Rightarrow> None))"

section \<open>The scan for the best model (lines 32-49)\<close>

text \<open>\<^verbatim>\<open>metrics.get(key, 0)\<close>\<close>

definition get_default :: "(string \<times> pyval) list \<Rightarrow> string \<Rightarrow> pyval" where
  "get_default m k = (case map_of m k of Some v \<Rightarrow> v | None \<Rightarrow> PInt 0)"

definition make_info :: "string \<Rightarrow> (string \<times> pyval) list \<Rightarrow> (string \<times> pyval) list" where
  "make_info name m =
     [(''model_name'', PStr name),
      (''accuracy'', get_default m ''accuracy''),
      (''precision'', get_default m ''precision''),
      (''recall'', get_default m ''recall''),
      (''f1_score'', get_default m ''f1_score''),
      (''roc_auc'', get_default m ''roc_auc''),
      (''cv_mean'', get_default m ''cv_mean''),
      (''cv_std'', get_default m ''cv_std'')]"

record scan_state =
  best_model :: "string option"
  best_f1 :: pyval
  model_info :: "(string \<times> pyval) list"

definition init_scan :: scan_state where
  "init_scan = \<lparr>best_model = None, best_f1 = PInt 0, model_info = []\<rparr>"

text \<open>\<^verbatim>\<open>isinstance(metrics, dict) and 'f1_score' in metrics\<close>, giving
  \<^verbatim>\<open>metrics['f1_score']\<close>.\<close>

fun f1_of :: "pyval \<Rightarrow> pyval option" where
  "f1_of (PDict m) = map_of m ''f1_score''"
| "f1_of _ = None"

fun metrics_of :: "pyval \<Rightarrow> (string \<times> pyval) list" where
  "metrics_of (PDict m) = m"
| "metrics_of _ = []"

fun scan :: "(string \<times> pyval) list \<Rightarrow> scan_state \<Rightarrow> pyexc + scan_state" where
  "scan [] s = Inr s"
| "scan ((name, metrics) # rest) s =
     (case f1_of metrics of
        None \<Rightarrow> scan rest s
      | Some f \<Rightarrow>
          (case py_gt f (best_f1 s) of
             None \<Rightarrow> Inl TypeError
           | Some False \<Rightarrow> scan rest s
           | Some True \<Rightarrow>
               scan rest \<lparr>best_model = Some name, best_f1 = f,
                          model_info = make_info name (metrics_of metrics)\<rparr>))"

section \<open>The report (lines 51-57)\<close>

text \<open>\<^verbatim>\<open>model_info[key]\<close> raises \<^verbatim>\<open>KeyError\<close> on a missing key.\<close>

definition pct_line :: "(string \<times> pyval) list \<Rightarrow> string \<Rightarrow> string \<Rightarrow> pyexc + line" where
  "pct_line info label key =
     (case map_of info key of
        None \<Rightarrow> Inl (KeyError key)
      | Some v \<Rightarrow> (case fmt_pct v of Some e \<Rightarrow> Inl e | None \<Rightarrow> Inr (PctLine label v)))"

definition cv_line :: "(string \<times> pyval) list \<Rightarrow> pyexc + line" where
  "cv_line info =
     (case map_of info ''cv_mean'' of
        None \<Rightarrow> Inl (KeyError ''cv_mean'')
      | Some m \<Rightarrow>
          (case fmt_f m of
             Some e \<Rightarrow> Inl e
           | None \<Rightarrow>
               (case map_of info ''cv_std'' of
                  None \<Rightarrow> Inl (KeyError ''cv_std'')
                | Some sd \<Rightarrow>
                    (case fmt_f sd of Some e \<Rightarrow> Inl e | None \<Rightarrow> Inr (CvLine m sd)))))"

definition report_lines :: "scan_state \<Rightarrow> (pyexc + line) list" where
  "report_lines s =
     [Inr (BestModelLine (best_model s)),
      pct_line (model_info s) ''Accuracy'' ''accuracy'',
      pct_line (model_info s) ''Precision'' ''precision'',
      pct_line (model_info s) ''Recall'' ''recall'',
      pct_line (model_info s) ''F1-Score'' ''f1_score'',
      pct_line (model_info s) ''ROC AUC'' ''roc_auc'',
      cv_line (model_info s)]"

text \<open>The prints run in order and stop at the first exception.\<close>

fun print_all :: "(pyexc + line) list \<Rightarrow> line list \<times> pyexc option" where
  "print_all [] = ([], None)"
| "print_all (Inl e # rest) = ([], Some e)"
| "print_all (Inr l # rest) = (l # fst (print_all rest), snd (print_all rest))"

section \<open>The file system and the run\<close>

text \<open>What the script observes of its environment: \<^verbatim>\<open>os.path.exists\<close>,
  \<^verbatim>\<open>os.listdir\<close> (\<open>None\<close> when it raises), \<^verbatim>\<open>joblib.load\<close> (\<open>Inl\<close> the text of
  the exception), and whether \<^verbatim>\<open>model_performance_summary.json\<close> can be opened and
  written. The environment does not change during the run.\<close>

record filesystem =
  path_exists :: "string \<Rightarrow> bool"
  listdir :: "string \<Rightarrow> string list option"
  joblib_load :: "string \<Rightarrow> string + pyval"
  can_write :: bool

record run_state =
  out :: "line list"
  results :: "(string \<times> (string \<times> pyval) list) list"

datatype outcome = Done run_state | Raised pyexc run_state

fun final_state :: "outcome \<Rightarrow> run_state" where
  "final_state (Done st) = st"
| "final_state (Raised e st) = st"

definition model_dirs :: "string list" where
  "model_dirs = [''models/k2'', ''models/kepler'', ''models/tess'']"

text \<open>\<^verbatim>\<open>model_dir.split('/')[-1]\<close>\<close>

definition last_segment :: "string \<Rightarrow> string" where
  "last_segment s = rev (takeWhile (\<lambda>c. c \<noteq> CHR ''/'') (rev s))"

text \<open>\<^verbatim>\<open>sub in s\<close> and \<^verbatim>\<open>s.endswith(suf)\<close>\<close>

fun starts_with :: "string \<Rightarrow> string \<Rightarrow> bool" where
  "starts_with [] s = True"
| "starts_with (p # ps) [] = False"
| "starts_with (p # ps) (c # cs) = (p = c \<and> starts_with ps cs)"

fun contains :: "string \<Rightarrow> string \<Rightarrow> bool" where
  "contains sub [] = (sub = [])"
| "contains sub (c # cs) = (starts_with sub (c # cs) \<or> contains sub cs)"

definition endswith :: "string \<Rightarrow> string \<Rightarrow> bool" where
  "endswith s suf = starts_with (rev suf) (rev s)"

text \<open>\<^verbatim>\<open>os.path.join\<close> with the separator \<^verbatim>\<open>/\<close>\<close>

definition path_join :: "string \<Rightarrow> string \<Rightarrow> string" where
  "path_join a b =
     (if b \<noteq> [] \<and> hd b = CHR ''/'' then b
      else if a = [] \<or> last a = CHR ''/'' then a @ b
      else a @ ''/'' @ b)"

text \<open>Lines 19-23: the first entry of the listing that matches.\<close>

fun find_results_file :: "string \<Rightarrow> string list \<Rightarrow> string option" where
  "find_results_file model_dir [] = None"
| "find_results_file model_dir (file # files) =
     (if contains ''model_results'' file \<and> endswith file ''.joblib''
      then Some (path_join model_dir file)
      else find_results_file model_dir files)"

definition emit :: "line list \<Rightarrow> run_state \<Rightarrow> run_state" where
  "emit ls st = st\<lparr>out := out st @ ls\<rparr>"

text \<open>Lines 26-62: the \<^verbatim>\<open>try\<close> block with its handler. Every exception raised inside
  is caught and reported with the path of the results file.\<close>

definition load_and_report :: "filesystem \<Rightarrow> string \<Rightarrow> string \<Rightarrow> run_state \<Rightarrow> run_state" where
  "load_and_report fs model_name results_file st =
     (case joblib_load fs results_file of
        Inl msg \<Rightarrow> emit [ErrorLine results_file (LoadError msg)] st
      | Inr results_data \<Rightarrow>
          (case results_data of
             PDict entries \<Rightarrow>
               (case scan entries init_scan of
                  Inl e \<Rightarrow> emit [PerfHeader model_name, ErrorLine results_file e] st
                | Inr s \<Rightarrow>
                    (case snd (print_all (report_lines s)) of
                       Some e \<Rightarrow>
                         emit (PerfHeader model_name # fst (print_all (report_lines s))
                               @ [ErrorLine results_file e]) st
                     | None \<Rightarrow>
                         (emit (PerfHeader model_name # fst (print_all (report_lines s))) st)
                           \<lparr>results := AList.update model_name (model_info s) (results st)\<rparr>))
           | _ \<Rightarrow> emit [PerfHeader model_name] st))"

text \<open>Lines 11-68, one iteration of the loop over \<^verbatim>\<open>model_dirs\<close>.\<close>

definition listing :: "string \<Rightarrow> string list \<Rightarrow> line list" where
  "listing model_dir files = FilesHeader model_dir # map FileLine (sort files)"

definition process_dir :: "filesystem \<Rightarrow> string \<Rightarrow> run_state \<Rightarrow> outcome" where
  "process_dir fs model_dir st =
     (if \<not> path_exists fs model_dir then Done st
      else
        (case listdir fs model_dir of
           None \<Rightarrow> Raised OSError st
         | Some files \<Rightarrow>
             Done (emit (listing model_dir files)
               (case find_results_file model_dir files of
                  None \<Rightarrow> st
                | Some results_file \<Rightarrow>
                    if path_exists fs results_file
                    then load_and_report fs (last_segment model_dir) results_file st
                    else st))))"

fun run_dirs :: "filesystem \<Rightarrow> string list \<Rightarrow> run_state \<Rightarrow> outcome" where
  "run_dirs fs [] st = Done st"
| "run_dirs fs (d # ds) st =
     (case process_dir fs d st of
        Done st' \<Rightarrow> run_dirs fs ds st'
      | Raised e st' \<Rightarrow> Raised e st')"

subsection \<open>The summary file (lines 70-72)\<close>

text \<open>
  The \<^verbatim>\<open>json\<close> module, modelled from its documentation at the level of JSON values
  rather than of text. \<^verbatim>\<open>json.dump\<close> writes \<^verbatim>\<open>None\<close> as \<^verbatim>\<open>null\<close>, a bool as
  \<^verbatim>\<open>true\<close> or \<^verbatim>\<open>false\<close>, an int as an integer literal, a float by its shortest
  representation that reads back to the same float (with the tokens \<^verbatim>\<open>NaN\<close>,
  \<^verbatim>\<open>Infinity\<close>, \<^verbatim>\<open>-Infinity\<close>, which the default \<^verbatim>\<open>allow_nan=True\<close> permits), a
  list as an array and a dict as an object. \<^verbatim>\<open>json.load\<close> reads an integer literal as
  an int, any other number as a float, and an object as a dict in which a repeated key
  keeps its first position and its last value.
\<close>

datatype json =
    JNull
  | JBool bool
  | JInt int
  | JFloat pyfloat
  | JStr string
  | JArr "json list"
  | JObj "(string \<times> json) list"

fun to_json :: "pyval \<Rightarrow> json"
  and to_json_list :: "pyval list \<Rightarrow> json list"
  and to_json_items :: "(string \<times> pyval) list \<Rightarrow> (string \<times> json) list" where
  "to_json PNone = JNull"
| "to_json (PBool b) = JBool b"
| "to_json (PInt n) = JInt n"
| "to_json (PFloat x) = JFloat x"
| "to_json (PStr s) = JStr s"
| "to_json (PList xs) = JArr (to_json_list xs)"
| "to_json (PDict m) = JObj (to_json_items m)"
| "to_json_list [] = []"
| "to_json_list (v # vs) = to_json v # to_json_list vs"
| "to_json_items [] = []"
| "to_json_items ((k, v) # m) = (k, to_json v) # to_json_items m"

fun from_json :: "json \<Rightarrow> pyval"
  and from_json_list :: "json list \<Rightarrow> pyval list"
  and from_json_items :: "(string \<times> json) list \<Rightarrow> (string \<times> pyval) list" where
  "from_json JNull = PNone"
| "from_json (JBool b) = PBool b"
| "from_json (JInt n) = PInt n"
| "from_json (JFloat x) = PFloat x"
| "from_json (JStr s) = PStr s"
| "from_json (JArr xs) = PList (from_json_list xs)"
| "from_json (JObj m) =
     PDict (foldl (\<lambda>d kv. AList.update (fst kv) (snd kv) d) [] (from_json_items m))"
| "from_json_list [] = []"
| "from_json_list (v # vs) = from_json v # from_json_list vs"
| "from_json_items [] = []"
| "from_json_items ((k, v) # m) = (k, from_json v) # from_json_items m"

text \<open>Python's \<^verbatim>\<open>==\<close> on the values above. Numbers compare by value across bool, int
  and float, and NaN is unequal to everything, itself included. Two dicts are equal when
  they have the same keys with equal values, in any order.\<close>

fun fl_eq :: "pyfloat \<Rightarrow> pyfloat \<Rightarrow> bool" where
  "fl_eq (Fin a) (Fin b) = (a = b)"
| "fl_eq PInf PInf = True"
| "fl_eq NInf NInf = True"
| "fl_eq _ _ = False"

fun py_eq :: "pyval \<Rightarrow> pyval \<Rightarrow> bool"
  and list_eq :: "pyval list \<Rightarrow> pyval list \<Rightarrow> bool"
  and items_in :: "(string \<times> pyval) list \<Rightarrow> (string \<times> pyval) list \<Rightarrow> bool" where
  "py_eq (PList a) b = (case b of PList b' \<Rightarrow> list_eq a b' | _ \<Rightarrow> False)"
| "py_eq (PDict a) b =
     (case b of PDict b' \<Rightarrow> length a = length b' \<and> items_in a b' | _ \<Rightarrow> False)"
| "py_eq (PStr a) b = (case b of PStr b' \<Rightarrow> a = b' | _ \<Rightarrow> False)"
| "py_eq PNone b = (case b of PNone \<Rightarrow> True | _ \<Rightarrow> False)"
| "py_eq (PBool a) b =
     (case as_num b of Some y \<Rightarrow> fl_eq (Fin (if a then 1 else 0)) y | None \<Rightarrow> False)"
| "py_eq (PInt a) b = (case as_num b of Some y \<Rightarrow> fl_eq (Fin (of_int a)) y | None \<Rightarrow> False)"
| "py_eq (PFloat a) b = (case as_num b of Some y \<Rightarrow> fl_eq a y | None \<Rightarrow> False)"
| "list_eq [] bs = (bs = [])"
| "list_eq (a # as) bs = (case bs of [] \<Rightarrow> False | b # bs' \<Rightarrow> py_eq a b \<and> list_eq as bs')"
| "items_in [] b = True"
| "items_in ((k, v) # a) b =
     ((case map_of b k of None \<Rightarrow> False | Some w \<Rightarrow> py_eq v w) \<and> items_in a b)"

text \<open>The mapping \<^verbatim>\<open>results\<close> as a Python value.\<close>

definition summary_value :: "(string \<times> (string \<times> pyval) list) list \<Rightarrow> pyval" where
  "summary_value res = PDict (map (\<lambda>e. (fst e, PDict (snd e))) res)"

text \<open>Lines 71-72: \<^verbatim>\<open>open\<close> raises \<^verbatim>\<open>OSError\<close> when the file cannot be written;
  otherwise the summary is serialised. Every value of the model can be serialised.\<close>

definition write_summary ::
  "filesystem \<Rightarrow> (string \<times> (string \<times> pyval) list) list \<Rightarrow> pyexc + json" where
  "write_summary fs res =
     (if can_write fs then Inr (to_json (summary_value res)) else Inl OSError)"

text \<open>The whole function: the loop, the write of the summary file, which is outside
  the \<^verbatim>\<open>try\<close> block, and the final line. The result pairs the outcome (the output,
  and in \<open>results\<close> the mapping that is returned) with the content of the summary file,
  \<open>None\<close> when the run does not write it.\<close>

definition check_model_performance_io :: "filesystem \<Rightarrow> outcome \<times> json option" where
  "check_model_performance_io fs =
     (case run_dirs fs model_dirs \<lparr>out = [], results = []\<rparr> of
        Done st \<Rightarrow>
          (case write_summary fs (results st) of
             Inl e \<Rightarrow> (Raised e st, None)
           | Inr j \<Rightarrow> (Done (emit [SavedLine] st), Some j))
      | Raised e st \<Rightarrow> (Raised e st, None))"

definition check_model_performance :: "filesystem \<Rightarrow> outcome" where
  "check_model_performance fs = fst (check_model_performance_io fs)"

definition summary_file :: "filesystem \<Rightarrow> json option" where
  "summary_file fs = snd (check_model_performance_io fs)"

subsection \<open>Concrete environments\<close>

text \<open>\<^verbatim>\<open>isinstance(results_data, dict)\<close>\<close>

fun is_dict :: "pyval \<Rightarrow> bool" where
  "is_dict (PDict m) = True"
| "is_dict _ = False"

text \<open>Only \<^verbatim>\<open>models/k2\<close> exists; it holds a model file and a results file, and
  loading the results file has the given outcome. The summary file can be written.\<close>

definition k2_only :: "string + pyval \<Rightarrow> filesystem" where
  "k2_only r =
     \<lparr>path_exists = (\<lambda>p. p = ''models/k2'' \<or> p = ''models/k2/model_results.joblib''),
      listdir = (\<lambda>p. if p = ''models/k2'' then Some [''model_results.joblib'', ''best.joblib'']
                     else None),
      joblib_load = (\<lambda>p. r),
      can_write = True\<rparr>"

text \<open>\<^verbatim>\<open>models/k2\<close> and \<^verbatim>\<open>models/tess\<close> exist. The results file of the first
  cannot be loaded; the one of the second holds the example below.\<close>

definition k2_broken_tess_ok :: "pyval \<Rightarrow> filesystem" where
  "k2_broken_tess_ok v =
     \<lparr>path_exists = (\<lambda>p. p = ''models/k2'' \<or> p = ''models/k2/model_results.joblib''
                          \<or> p = ''models/tess'' \<or> p = ''models/tess/tess_model_results.joblib''),
      listdir = (\<lambda>p. if p = ''models/k2'' then Some [''model_results.joblib'']
                     else if p = ''models/tess'' then Some [''tess_model_results.joblib'']
                     else None),
      joblib_load = (\<lambda>p. if p = ''models/k2/model_results.joblib''
                         then Inl ''invalid load key'' else Inr v),
      can_write = True\<rparr>"

text \<open>The example of the specification: two sub-models, the second with the higher
  F1 score.\<close>

definition example_ab :: pyval where
  "example_ab =
     PDict [(''A'', PDict [(''f1_score'', PFloat (Fin (8 / 10))), (''accuracy'', PFloat (Fin (9 / 10)))]),
            (''B'', PDict [(''f1_score'', PFloat (Fin (95 / 100))), (''accuracy'', PFloat (Fin (85 / 100)))])]"

text \<open>The lines that the iteration for directory \<open>d\<close> can print: its own two headers,
  metric lines, error lines and file names.\<close>

fun dir_line :: "string \<Rightarrow> line \<Rightarrow> bool" where
  "dir_line d (PerfHeader n) = (n = last_segment d)"
| "dir_line d (FilesHeader p) = (p = d)"
| "dir_line d SavedLine = False"
| "dir_line d _ = True"

text \<open>What the scan has established after the entries \<open>ps\<close>: either nothing was
  selected and no F1 score so far exceeds 0, or the state holds an entry of \<open>ps\<close> whose
  F1 score exceeds 0 and is exceeded by none in \<open>ps\<close>.\<close>

definition scanned :: "(string \<times> pyval) list \<Rightarrow> scan_state \<Rightarrow> bool" where
  "scanned ps s \<longleftrightarrow>
     (s = init_scan \<and> (\<forall>e\<in>set ps. \<forall>g. f1_of (snd e) = Some g \<longrightarrow> py_gt g (PInt 0) = Some False))
   \<or> (\<exists>name v f. (name, v) \<in> set ps \<and> f1_of v = Some f \<and> py_gt f (PInt 0) = Some True
         \<and> s = \<lparr>best_model = Some name, best_f1 = f, model_info = make_info name (metrics_of v)\<rparr>
         \<and> (\<forall>e\<in>set ps. \<forall>g. f1_of (snd e) = Some g \<longrightarrow> py_gt g f = Some False))"

text \<open>\<open>info\<close> is the summary entry built from an entry of \<open>entries\<close> whose F1 score
  exceeds 0 and is exceeded by no F1 score of \<open>entries\<close>.\<close>

definition selected :: "(string \<times> pyval) list \<Rightarrow> (string \<times> pyval) list \<Rightarrow> bool" where
  "selected entries info \<longleftrightarrow>
     (\<exists>name v f. (name, v) \<in> set entries \<and> f1_of v = Some f \<and> py_gt f (PInt 0) = Some True
        \<and> info = make_info name (metrics_of v)
        \<and> (\<forall>e\<in>set entries. \<forall>g. f1_of (snd e) = Some g \<longrightarrow> py_gt g f = Some False))"

text \<open>The keys of a summary entry, the optional metric fields other than the F1 score,
  and the keys read by the report lines.\<close>

definition info_keys :: "string list" where
  "info_keys = [''model_name'', ''accuracy'', ''precision'', ''recall'', ''f1_score'',
                ''roc_auc'', ''cv_mean'', ''cv_std'']"

definition optional_fields :: "string list" where
  "optional_fields = [''accuracy'', ''precision'', ''recall'', ''roc_auc'', ''cv_mean'', ''cv_std'']"

definition pct_keys :: "string list" where
  "pct_keys = [''accuracy'', ''precision'', ''recall'', ''f1_score'', ''roc_auc'']"

definition cv_keys :: "string list" where
  "cv_keys = [''cv_mean'', ''cv_std'']"

text \<open>A summary entry \<open>e\<close> comes from the results file of one of the configured
  directories.\<close>

definition recorded :: "filesystem \<Rightarrow> string \<times> (string \<times> pyval) list \<Rightarrow> bool" where
  "recorded fs e \<longleftrightarrow>
     (\<exists>d files rf entries. d \<in> set model_dirs \<and> fst e = last_segment d \<and> path_exists fs d
        \<and> listdir fs d = Some files \<and> find_results_file d files = Some rf
        \<and> joblib_load fs rf = Inr (PDict entries) \<and> selected entries (snd e))"


text \<open>A sub-model whose \<open>cv_mean\<close> is NaN.\<close>

definition example_nan :: pyval where
  "example_nan =
     PDict [(''A'', PDict [(''f1_score'', PFloat (Fin (9 / 10))), (''cv_mean'', PFloat NaN)])]"

text \<open>A string or a number.\<close>

fun scalar :: "pyval \<Rightarrow> bool" where
  "scalar (PStr s) = True"
| "scalar (PBool b) = True"
| "scalar (PInt n) = True"
| "scalar (PFloat x) = True"
| "scalar _ = False"

text \<open>A summary entry with the eight keys and a string or a number under each.\<close>

definition info_wf :: "(string \<times> pyval) list \<Rightarrow> bool" where
  "info_wf info \<longleftrightarrow> map fst info = info_keys \<and> list_all scalar (map snd info)"

text \<open>The summary entry that the iteration for directory \<open>d\<close> writes, if any.\<close>

definition contribution :: "filesystem \<Rightarrow> string \<Rightarrow> (string \<times> pyval) list option" where
  "contribution fs d =
     map_of (results (final_state (process_dir fs d \<lparr>out = [], results = []\<rparr>))) (last_segment d)"

lemmas run_defs =
  check_model_performance_def check_model_performance_io_def write_summary_def
  summary_file_def summary_value_def model_dirs_def process_dir_def load_and_report_def emit_def
  init_scan_def py_gt_def report_lines_def pct_line_def cv_line_def path_join_def
  endswith_def listing_def last_segment_def make_info_def get_default_def dbl_limit_def
  fmt_pct_def

section \<open>Properties of one directory\<close>

lemma process_dir_present:
  assumes "path_exists fs d" and "listdir fs d = Some files"
    and "find_results_file d files = Some rf" and "path_exists fs rf"
  shows "process_dir fs d st =
           Done (emit (listing d files) (load_and_report fs (last_segment d) rf st))"
  using assms by (simp add: process_dir_def)

text \<open>
  C6. When the results file loads to a value that is not a mapping, the iteration ends
  normally with the header and the directory listing as its only output, the summary is
  unchanged, and the loop goes on with the remaining directories.
\<close>

theorem non_mapping_is_skipped:
  assumes "path_exists fs d" and "listdir fs d = Some files"
    and "find_results_file d files = Some rf" and "path_exists fs rf"
    and "joblib_load fs rf = Inr v" and "\<not> is_dict v"
  shows "process_dir fs d st =
           Done (st\<lparr>out := out st @ PerfHeader (last_segment d) # listing d files\<rparr>)
         \<and> run_dirs fs (d # ds) st =
           run_dirs fs ds (st\<lparr>out := out st @ PerfHeader (last_segment d) # listing d files\<rparr>)"
proof -
  have "load_and_report fs (last_segment d) rf st = emit [PerfHeader (last_segment d)] st"
    using assms(5,6) by (cases v) (simp_all add: load_and_report_def)
  then have "process_dir fs d st =
      Done (st\<lparr>out := out st @ PerfHeader (last_segment d) # listing d files\<rparr>)"
    using process_dir_present [OF assms(1-4), of st] by (simp add: emit_def)
  then show ?thesis by simp
qed

theorem non_mapping_is_skipped_witness:
  "process_dir (k2_only (Inr (PList [PInt 1]))) ''models/k2'' \<lparr>out = [], results = []\<rparr> =
     Done \<lparr>out = [PerfHeader ''k2'', FilesHeader ''models/k2'', FileLine ''best.joblib'',
                  FileLine ''model_results.joblib''],
           results = []\<rparr>"
  using non_mapping_is_skipped [of "k2_only (Inr (PList [PInt 1]))" "''models/k2''"
      "[''model_results.joblib'', ''best.joblib'']" "''models/k2/model_results.joblib''"
      "PList [PInt 1]" "\<lparr>out = [], results = []\<rparr>" "[]"]
  by (simp add: k2_only_def path_join_def endswith_def listing_def last_segment_def)

text \<open>
  C2. The run on a results mapping none of whose entries has an \<^verbatim>\<open>f1_score\<close> field:
  after the header the script prints \<^verbatim>\<open>Best Model: None\<close>, then the lookup
  \<^verbatim>\<open>model_info['accuracy']\<close> in the empty mapping raises \<^verbatim>\<open>KeyError\<close>, and the handler
  prints an error line. No summary entry is recorded.
\<close>

theorem no_f1_score_reports_error:
  "check_model_performance
     (k2_only (Inr (PDict [(''A'', PDict [(''accuracy'', PFloat (Fin (9 / 10)))])]))) =
   Done \<lparr>out = [PerfHeader ''k2'', BestModelLine None,
                ErrorLine ''models/k2/model_results.joblib'' (KeyError ''accuracy''),
                FilesHeader ''models/k2'', FileLine ''best.joblib'',
                FileLine ''model_results.joblib'', SavedLine],
         results = []\<rparr>"
  by (simp add: run_defs k2_only_def)

section \<open>Output and keys of the whole run\<close>

lemma print_all_lines: "l \<in> set (fst (print_all xs)) \<Longrightarrow> Inr l \<in> set xs"
  by (induction xs rule: print_all.induct) auto

lemma pct_line_kind: "pct_line info label key = Inr l \<Longrightarrow> dir_line d l"
  by (auto simp: pct_line_def split: option.splits)

lemma cv_line_kind: "cv_line info = Inr l \<Longrightarrow> dir_line d l"
  by (auto simp: cv_line_def split: option.splits)

lemma report_lines_kind:
  assumes "Inr l \<in> set (report_lines s)"
  shows "dir_line d l"
proof -
  from assms consider "l = BestModelLine (best_model s)"
    | label key where "pct_line (model_info s) label key = Inr l"
    | "cv_line (model_info s) = Inr l"
    unfolding report_lines_def by auto
  then show ?thesis
    by cases (simp_all add: pct_line_kind cv_line_kind)
qed

lemma printed_kind: "l \<in> set (fst (print_all (report_lines s))) \<Longrightarrow> dir_line d l"
  using print_all_lines report_lines_kind by blast

lemma load_and_report_out:
  "\<exists>ls. out (load_and_report fs (last_segment d) rf st) = out st @ ls \<and> (\<forall>l\<in>set ls. dir_line d l)"
proof (cases "joblib_load fs rf")
  case (Inl msg)
  then show ?thesis by (simp add: load_and_report_def emit_def)
next
  case (Inr v)
  show ?thesis
  proof (cases "is_dict v")
    case False
    with Inr show ?thesis by (cases v) (simp_all add: load_and_report_def emit_def)
  next
    case True
    then obtain entries where v: "v = PDict entries" by (cases v) simp_all
    show ?thesis
    proof (cases "scan entries init_scan")
      case (Inl e)
      with Inr v show ?thesis by (simp add: load_and_report_def emit_def)
    next
      case s: (Inr s)
      have k: "\<forall>l\<in>set (fst (print_all (report_lines s))). dir_line d l"
        using printed_kind by blast
      show ?thesis
      proof (cases "snd (print_all (report_lines s))")
        case None
        with Inr v s k show ?thesis by (simp add: load_and_report_def emit_def)
      next
        case (Some e)
        with Inr v s k show ?thesis by (simp add: load_and_report_def emit_def)
      qed
    qed
  qed
qed

lemma process_dir_out:
  "\<exists>ls. out (final_state (process_dir fs d st)) = out st @ ls
        \<and> (\<forall>l\<in>set ls. path_exists fs d \<and> dir_line d l)"
proof (cases "path_exists fs d")
  case False
  then show ?thesis by (simp add: process_dir_def)
next
  case True
  show ?thesis
  proof (cases "listdir fs d")
    case None
    with True show ?thesis by (simp add: process_dir_def)
  next
    case (Some files)
    have lst: "\<forall>l\<in>set (listing d files). dir_line d l"
      by (auto simp: listing_def)
    show ?thesis
    proof (cases "find_results_file d files")
      case None
      with True Some lst show ?thesis by (simp add: process_dir_def emit_def)
    next
      case rf: (Some rf)
      obtain ls where ls: "out (load_and_report fs (last_segment d) rf st) = out st @ ls"
        "\<forall>l\<in>set ls. dir_line d l"
        using load_and_report_out by blast
      show ?thesis
      proof (cases "path_exists fs rf")
        case False
        with True Some rf lst show ?thesis by (simp add: process_dir_def emit_def)
      next
        case T: True
        have "\<forall>l\<in>set (ls @ listing d files). dir_line d l" using ls(2) lst by auto
        with T True Some rf ls(1) show ?thesis by (simp add: process_dir_def emit_def)
      qed
    qed
  qed
qed

lemma run_dirs_out:
  "set (out (final_state (run_dirs fs ds st))) \<subseteq>
     set (out st) \<union> {l. \<exists>d\<in>set ds. path_exists fs d \<and> dir_line d l}"
proof (induction ds arbitrary: st)
  case Nil
  then show ?case by simp
next
  case (Cons d ds)
  obtain ls where ls: "out (final_state (process_dir fs d st)) = out st @ ls"
      "\<forall>l\<in>set ls. path_exists fs d \<and> dir_line d l"
    using process_dir_out by blast
  show ?case
  proof (cases "process_dir fs d st")
    case (Done st')
    with ls have "set (out st') \<subseteq> set (out st) \<union> {l. path_exists fs d \<and> dir_line d l}"
      by auto
    with Cons.IH [of st'] Done show ?thesis by auto
  next
    case (Raised e st')
    with ls show ?thesis by auto
  qed
qed

lemma process_dir_listing:
  assumes "path_exists fs d" and "listdir fs d = Some files"
  shows "\<exists>st1 ls. process_dir fs d st = Done (emit (listing d files) st1) \<and> out st1 = out st @ ls"
proof -
  have same: "out st = out st @ []" by simp
  show ?thesis
  proof (cases "find_results_file d files")
    case None
    with assms have "process_dir fs d st = Done (emit (listing d files) st)"
      by (simp add: process_dir_def)
    with same show ?thesis by blast
  next
    case (Some rf)
    obtain ls where ls: "out (load_and_report fs (last_segment d) rf st) = out st @ ls"
      using load_and_report_out by blast
    show ?thesis
    proof (cases "path_exists fs rf")
      case True
      with assms Some have "process_dir fs d st =
          Done (emit (listing d files) (load_and_report fs (last_segment d) rf st))"
        by (simp add: process_dir_def)
      with ls show ?thesis by blast
    next
      case False
      with assms Some have "process_dir fs d st = Done (emit (listing d files) st)"
        by (simp add: process_dir_def)
      with same show ?thesis by blast
    qed
  qed
qed



lemma update_keys: "fst ` set (AList.update k v al) = insert k (fst ` set al)"
  by (induction al) auto

lemma update_set: "set (AList.update k v al) \<subseteq> insert (k, v) (set al)"
  by (induction al) auto

lemma load_and_report_keys:
  "fst ` set (results (load_and_report fs mn rf st)) \<subseteq> insert mn (fst ` set (results st))"
  by (auto simp: load_and_report_def emit_def update_keys
      split: sum.splits pyval.splits option.splits)

lemma process_dir_keys:
  "fst ` set (results (final_state (process_dir fs d st))) \<subseteq>
     fst ` set (results st) \<union> {k. path_exists fs d \<and> k = last_segment d}"
proof (cases "path_exists fs d")
  case False
  then show ?thesis by (simp add: process_dir_def)
next
  case True
  show ?thesis
  proof (cases "listdir fs d")
    case None
    with True show ?thesis by (auto simp: process_dir_def)
  next
    case (Some files)
    show ?thesis
    proof (cases "find_results_file d files")
      case None
      with True Some show ?thesis by (auto simp: process_dir_def emit_def)
    next
      case rf: (Some rf)
      show ?thesis
        using True Some rf load_and_report_keys [of fs "last_segment d" rf st]
        by (auto simp: process_dir_def emit_def)
    qed
  qed
qed

lemma run_dirs_keys:
  "fst ` set (results (final_state (run_dirs fs ds st))) \<subseteq>
     fst ` set (results st) \<union> {k. \<exists>d\<in>set ds. path_exists fs d \<and> k = last_segment d}"
proof (induction ds arbitrary: st)
  case Nil
  then show ?case by simp
next
  case (Cons d ds)
  note step = process_dir_keys [of fs d st]
  show ?case
  proof (cases "process_dir fs d st")
    case (Done st')
    then have run: "run_dirs fs (d # ds) st = run_dirs fs ds st'" by simp
    from Done step have "fst ` set (results st') \<subseteq>
        fst ` set (results st) \<union> {k. path_exists fs d \<and> k = last_segment d}"
      by simp
    with Cons.IH [of st'] show ?thesis unfolding run by (simp add: subset_iff) blast
  next
    case (Raised e st')
    then have run: "final_state (run_dirs fs (d # ds) st) = st'" by simp
    from Raised step show ?thesis unfolding run by (simp add: subset_iff) blast
  qed
qed

lemma check_final_results:
  "results (final_state (check_model_performance fs)) =
     results (final_state (run_dirs fs model_dirs \<lparr>out = [], results = []\<rparr>))"
  by (simp add: check_model_performance_def check_model_performance_io_def emit_def
      split: outcome.splits sum.splits)

lemma check_final_out:
  "set (out (final_state (check_model_performance fs))) \<subseteq>
     insert SavedLine (set (out (final_state (run_dirs fs model_dirs \<lparr>out = [], results = []\<rparr>))))"
  by (auto simp: check_model_performance_def check_model_performance_io_def emit_def
      split: outcome.splits sum.splits)

lemma last_segment_model_dirs:
  "d \<in> set model_dirs \<Longrightarrow> d' \<in> set model_dirs \<Longrightarrow> last_segment d' = last_segment d \<Longrightarrow> d' = d"
  by (auto simp: model_dirs_def last_segment_def)

text \<open>
  C7. For a configured directory that does not exist, the iteration changes neither the
  output nor the summary, and at the end of the run the summary has no key for the
  directory and the output holds neither its performance header nor its listing header.
\<close>

theorem absent_dir_is_skipped:
  assumes "d \<in> set model_dirs" and "\<not> path_exists fs d"
  shows "process_dir fs d st = Done st
       \<and> map_of (results (final_state (check_model_performance fs))) (last_segment d) = None
       \<and> PerfHeader (last_segment d) \<notin> set (out (final_state (check_model_performance fs)))
       \<and> FilesHeader d \<notin> set (out (final_state (check_model_performance fs)))"
proof -
  let ?run = "final_state (run_dirs fs model_dirs \<lparr>out = [], results = []\<rparr>)"
  have skip: "process_dir fs d st = Done st"
    using assms(2) by (simp add: process_dir_def)
  have "last_segment d \<notin> fst ` set (results ?run)"
  proof
    assume "last_segment d \<in> fst ` set (results ?run)"
    then obtain d' where "d' \<in> set model_dirs" "path_exists fs d'" "last_segment d = last_segment d'"
      using run_dirs_keys [of fs model_dirs "\<lparr>out = [], results = []\<rparr>"] by auto
    with assms show False using last_segment_model_dirs by metis
  qed
  then have key: "map_of (results (final_state (check_model_performance fs))) (last_segment d) = None"
    by (simp add: check_final_results map_of_eq_None_iff)
  have lines: "\<And>l. l \<in> set (out ?run) \<Longrightarrow> \<exists>d'\<in>set model_dirs. path_exists fs d' \<and> dir_line d' l"
    using run_dirs_out [of fs model_dirs "\<lparr>out = [], results = []\<rparr>"] by auto
  have h1: "PerfHeader (last_segment d) \<notin> set (out ?run)"
  proof
    assume "PerfHeader (last_segment d) \<in> set (out ?run)"
    then obtain d' where "d' \<in> set model_dirs" "path_exists fs d'" "last_segment d = last_segment d'"
      using lines by fastforce
    with assms show False using last_segment_model_dirs by metis
  qed
  have h2: "FilesHeader d \<notin> set (out ?run)"
  proof
    assume "FilesHeader d \<in> set (out ?run)"
    then obtain d' where "path_exists fs d'" "d = d'"
      using lines by fastforce
    with assms show False by simp
  qed
  from h1 h2 have "PerfHeader (last_segment d) \<notin> set (out (final_state (check_model_performance fs)))
      \<and> FilesHeader d \<notin> set (out (final_state (check_model_performance fs)))"
    using check_final_out [of fs] by auto
  with skip key show ?thesis by simp
qed

theorem absent_dir_is_skipped_witness:
  "map_of (results (final_state (check_model_performance (k2_only (Inr example_ab))))) ''tess'' = None
   \<and> map_of (results (final_state (check_model_performance (k2_only (Inr example_ab))))) ''k2'' \<noteq> None
   \<and> PerfHeader ''tess'' \<notin> set (out (final_state (check_model_performance (k2_only (Inr example_ab)))))
   \<and> FilesHeader ''models/tess'' \<notin> set (out (final_state (check_model_performance (k2_only (Inr example_ab)))))"
proof -
  have k2: "map_of (results (final_state (check_model_performance (k2_only (Inr example_ab))))) ''k2'' \<noteq> None"
    by (simp add: run_defs k2_only_def example_ab_def)
  have seg: "last_segment ''models/tess'' = ''tess''"
    by (simp add: last_segment_def)
  show ?thesis
    using k2 seg absent_dir_is_skipped [of "''models/tess''" "k2_only (Inr example_ab)"]
    by (simp add: k2_only_def model_dirs_def)
qed

section \<open>The scan and the recorded entries\<close>

lemma fl_gt_irrefl: "\<not> fl_gt x x"
  by (cases x) simp_all

lemma fl_gt_trans: "fl_gt a b \<Longrightarrow> fl_gt b c \<Longrightarrow> fl_gt a c"
  by (cases a; cases b; cases c) simp_all

lemma py_gt_irrefl: "py_gt f b = Some r \<Longrightarrow> py_gt f f = Some False"
  by (auto simp: py_gt_def fl_gt_irrefl split: option.splits)

lemma py_gt_trans:
  "py_gt a b = Some True \<Longrightarrow> py_gt b c = Some True \<Longrightarrow> py_gt a c = Some True"
  by (auto simp: py_gt_def split: option.splits dest: fl_gt_trans)

lemma py_gt_below:
  "py_gt g b = Some False \<Longrightarrow> py_gt f b = Some True \<Longrightarrow> py_gt g f = Some False"
  by (auto simp: py_gt_def split: option.splits dest: fl_gt_trans)

lemma scanned_best:
  "scanned ps s \<Longrightarrow> \<forall>e\<in>set ps. \<forall>g. f1_of (snd e) = Some g \<longrightarrow> py_gt g (best_f1 s) = Some False"
  by (auto simp: scanned_def init_scan_def)

lemma scanned_pos:
  "scanned ps s \<Longrightarrow> py_gt f (best_f1 s) = Some True \<Longrightarrow> py_gt f (PInt 0) = Some True"
  by (auto simp: scanned_def init_scan_def dest: py_gt_trans)

lemma scanned_skip:
  assumes "scanned ps s" and "f1_of v = None \<or> (\<exists>g. f1_of v = Some g \<and> py_gt g (best_f1 s) = Some False)"
  shows "scanned (ps @ [(name, v)]) s"
  using assms unfolding scanned_def init_scan_def by auto

lemma scanned_take:
  assumes "scanned ps s" and "f1_of v = Some f" and "py_gt f (best_f1 s) = Some True"
  shows "scanned (ps @ [(name, v)])
           \<lparr>best_model = Some name, best_f1 = f, model_info = make_info name (metrics_of v)\<rparr>"
proof -
  have pos: "py_gt f (PInt 0) = Some True"
    using scanned_pos [OF assms(1,3)] .
  have old: "\<forall>e\<in>set ps. \<forall>g. f1_of (snd e) = Some g \<longrightarrow> py_gt g f = Some False"
    using scanned_best [OF assms(1)] assms(3) py_gt_below by blast
  have self: "py_gt f f = Some False"
    using assms(3) py_gt_irrefl by blast
  have "\<forall>e\<in>set (ps @ [(name, v)]). \<forall>g. f1_of (snd e) = Some g \<longrightarrow> py_gt g f = Some False"
    using old self assms(2) by auto
  moreover have "(name, v) \<in> set (ps @ [(name, v)])" by simp
  ultimately show ?thesis
    unfolding scanned_def using assms(2) pos by blast
qed

lemma scan_scanned:
  "scan xs s = Inr s' \<Longrightarrow> scanned ps s \<Longrightarrow> scanned (ps @ xs) s'"
proof (induction xs arbitrary: s ps)
  case Nil
  then show ?case by simp
next
  case (Cons x xs)
  obtain name v where x: "x = (name, v)" by (cases x)
  show ?case
  proof (cases "f1_of v")
    case None
    with Cons.prems x have "scan xs s = Inr s'" by simp
    moreover have "scanned (ps @ [(name, v)]) s"
      using scanned_skip [OF Cons.prems(2)] None by simp
    ultimately show ?thesis using Cons.IH [of s "ps @ [(name, v)]"] x by simp
  next
    case (Some f)
    show ?thesis
    proof (cases "py_gt f (best_f1 s)")
      case None
      with Cons.prems x Some show ?thesis by simp
    next
      case gt: (Some b)
      show ?thesis
      proof (cases b)
        case False
        with Cons.prems x Some gt have "scan xs s = Inr s'" by simp
        moreover have "scanned (ps @ [(name, v)]) s"
          using scanned_skip [OF Cons.prems(2)] Some gt False by simp
        ultimately show ?thesis using Cons.IH [of s "ps @ [(name, v)]"] x by simp
      next
        case True
        let ?t = "\<lparr>best_model = Some name, best_f1 = f, model_info = make_info name (metrics_of v)\<rparr>"
        from Cons.prems x Some gt True have "scan xs ?t = Inr s'" by simp
        moreover have "scanned (ps @ [(name, v)]) ?t"
          using scanned_take [OF Cons.prems(2) Some] gt True by simp
        ultimately show ?thesis using Cons.IH [of ?t "ps @ [(name, v)]"] x by simp
      qed
    qed
  qed
qed

lemma scanned_init: "scanned [] init_scan"
  by (simp add: scanned_def)

lemma print_all_ok: "snd (print_all xs) = None \<Longrightarrow> x \<in> set xs \<Longrightarrow> \<exists>l. x = Inr l"
  by (induction xs rule: print_all.induct) auto

lemma report_needs_info:
  assumes "snd (print_all (report_lines s)) = None"
  shows "model_info s \<noteq> []"
proof
  assume "model_info s = []"
  then have "Inl (KeyError ''accuracy'') \<in> set (report_lines s)"
    by (simp add: report_lines_def pct_line_def)
  with assms show False using print_all_ok by blast
qed

lemma load_and_report_results:
  "results (load_and_report fs mn rf st) = results st
   \<or> (\<exists>entries info. joblib_load fs rf = Inr (PDict entries) \<and> selected entries info
        \<and> results (load_and_report fs mn rf st) = AList.update mn info (results st))"
proof (cases "joblib_load fs rf")
  case (Inl msg)
  then show ?thesis by (simp add: load_and_report_def emit_def)
next
  case (Inr v)
  show ?thesis
  proof (cases "is_dict v")
    case False
    with Inr show ?thesis by (cases v) (simp_all add: load_and_report_def emit_def)
  next
    case True
    then obtain entries where v: "v = PDict entries" by (cases v) simp_all
    show ?thesis
    proof (cases "scan entries init_scan")
      case (Inl e)
      with Inr v show ?thesis by (simp add: load_and_report_def emit_def)
    next
      case s: (Inr s)
      show ?thesis
      proof (cases "snd (print_all (report_lines s))")
        case (Some e)
        with Inr v s show ?thesis by (simp add: load_and_report_def emit_def)
      next
        case None
        have "scanned entries s"
          using scan_scanned [OF s scanned_init] by simp
        moreover have "model_info s \<noteq> []"
          using report_needs_info [OF None] .
        ultimately have "selected entries (model_info s)"
          unfolding scanned_def selected_def init_scan_def by fastforce
        moreover have "results (load_and_report fs mn rf st) = AList.update mn (model_info s) (results st)"
          using Inr v s None by (simp add: load_and_report_def emit_def)
        ultimately show ?thesis using Inr v by blast
      qed
    qed
  qed
qed

lemma process_dir_results:
  "results (final_state (process_dir fs d st)) = results st
   \<or> (\<exists>files rf entries info. path_exists fs d \<and> listdir fs d = Some files
        \<and> find_results_file d files = Some rf \<and> joblib_load fs rf = Inr (PDict entries)
        \<and> selected entries info
        \<and> results (final_state (process_dir fs d st)) = AList.update (last_segment d) info (results st))"
proof (cases "path_exists fs d")
  case False
  then show ?thesis by (simp add: process_dir_def)
next
  case True
  show ?thesis
  proof (cases "listdir fs d")
    case None
    with True show ?thesis by (simp add: process_dir_def)
  next
    case (Some files)
    show ?thesis
    proof (cases "find_results_file d files")
      case None
      with True Some show ?thesis by (simp add: process_dir_def emit_def)
    next
      case rf: (Some rf)
      show ?thesis
      proof (cases "path_exists fs rf")
        case False
        with True Some rf show ?thesis by (simp add: process_dir_def emit_def)
      next
        case T: True
        have eq: "results (final_state (process_dir fs d st)) =
            results (load_and_report fs (last_segment d) rf st)"
          using True Some rf T by (simp add: process_dir_def emit_def)
        show ?thesis
          using load_and_report_results [of fs "last_segment d" rf st] True Some rf
          unfolding eq by blast
      qed
    qed
  qed
qed

lemma process_dir_recorded:
  assumes "d \<in> set model_dirs" and "\<forall>e\<in>set (results st). recorded fs e"
  shows "\<forall>e\<in>set (results (final_state (process_dir fs d st))). recorded fs e"
proof -
  from process_dir_results [of fs d st] show ?thesis
  proof
    assume "results (final_state (process_dir fs d st)) = results st"
    with assms(2) show ?thesis by simp
  next
    assume "\<exists>files rf entries info. path_exists fs d \<and> listdir fs d = Some files
        \<and> find_results_file d files = Some rf \<and> joblib_load fs rf = Inr (PDict entries)
        \<and> selected entries info
        \<and> results (final_state (process_dir fs d st)) = AList.update (last_segment d) info (results st)"
    then obtain files rf entries info where h: "path_exists fs d" "listdir fs d = Some files"
        "find_results_file d files = Some rf" "joblib_load fs rf = Inr (PDict entries)"
        "selected entries info"
        "results (final_state (process_dir fs d st)) = AList.update (last_segment d) info (results st)"
      by blast
    have new: "recorded fs (last_segment d, info)"
      unfolding recorded_def using assms(1) h(1-5) by auto
    show ?thesis
      unfolding h(6) using update_set [of "last_segment d" info "results st"] new assms(2) by auto
  qed
qed

lemma process_dir_distinct:
  "distinct (map fst (results st)) \<Longrightarrow> distinct (map fst (results (final_state (process_dir fs d st))))"
  using process_dir_results [of fs d st] by (auto simp: distinct_update)

lemma run_dirs_recorded:
  "set ds \<subseteq> set model_dirs \<Longrightarrow> \<forall>e\<in>set (results st). recorded fs e \<Longrightarrow>
     \<forall>e\<in>set (results (final_state (run_dirs fs ds st))). recorded fs e"
proof (induction ds arbitrary: st)
  case Nil
  then show ?case by simp
next
  case (Cons d ds)
  have step: "\<forall>e\<in>set (results (final_state (process_dir fs d st))). recorded fs e"
    using process_dir_recorded [of d st fs] Cons.prems by simp
  show ?case
  proof (cases "process_dir fs d st")
    case (Done st')
    with step Cons.IH [of st'] Cons.prems(1) show ?thesis by simp
  next
    case (Raised e st')
    with step show ?thesis by simp
  qed
qed

lemma run_dirs_distinct:
  "distinct (map fst (results st)) \<Longrightarrow> distinct (map fst (results (final_state (run_dirs fs ds st))))"
proof (induction ds arbitrary: st)
  case Nil
  then show ?case by simp
next
  case (Cons d ds)
  have step: "distinct (map fst (results (final_state (process_dir fs d st))))"
    using process_dir_distinct [OF Cons.prems] .
  show ?case
  proof (cases "process_dir fs d st")
    case (Done st')
    with step Cons.IH [of st'] show ?thesis by simp
  next
    case (Raised e st')
    with step show ?thesis by simp
  qed
qed

lemma check_recorded:
  "e \<in> set (results (final_state (check_model_performance fs))) \<Longrightarrow> recorded fs e"
  using run_dirs_recorded [of model_dirs "\<lparr>out = [], results = []\<rparr>" fs]
  by (simp add: check_final_results)

lemma last_segment_names:
  "d \<in> set model_dirs \<Longrightarrow> last_segment d \<in> {''k2'', ''kepler'', ''tess''}"
  by (auto simp: model_dirs_def last_segment_def)

lemma selected_keys: "selected entries info \<Longrightarrow> map fst info = info_keys"
  by (auto simp: selected_def make_info_def info_keys_def)

lemma selected_f1:
  "selected entries info \<Longrightarrow> \<exists>f. map_of info ''f1_score'' = Some f \<and> py_gt f (PInt 0) = Some True"
proof -
  assume "selected entries info"
  then obtain name v f where h: "f1_of v = Some f" "py_gt f (PInt 0) = Some True"
      "info = make_info name (metrics_of v)"
    unfolding selected_def by blast
  from h(1) obtain m where "v = PDict m" "map_of m ''f1_score'' = Some f"
    by (cases v) simp_all
  with h show ?thesis by (simp add: make_info_def get_default_def)
qed

text \<open>
  C10. After any number of iterations of the loop over the configured directories, and
  at the end of the run, the keys of the summary are distinct and among \<open>k2\<close>,
  \<open>kepler\<close>, \<open>tess\<close>, and every value has exactly the keys \<open>model_name\<close>,
  \<open>accuracy\<close>, \<open>precision\<close>, \<open>recall\<close>, \<open>f1_score\<close>, \<open>roc_auc\<close>, \<open>cv_mean\<close>,
  \<open>cv_std\<close>, in this order.
\<close>

theorem summary_shape:
  assumes "st = final_state (run_dirs fs (take n model_dirs) \<lparr>out = [], results = []\<rparr>)
         \<or> st = final_state (check_model_performance fs)"
  shows "distinct (map fst (results st))
       \<and> (\<forall>e\<in>set (results st). fst e \<in> {''k2'', ''kepler'', ''tess''} \<and> map fst (snd e) = info_keys)"
proof -
  have "results st = results (final_state (run_dirs fs (take n model_dirs) \<lparr>out = [], results = []\<rparr>))
      \<or> results st = results (final_state (run_dirs fs (take (length model_dirs) model_dirs) \<lparr>out = [], results = []\<rparr>))"
    using assms by (auto simp: check_final_results)
  then obtain k where k: "results st = results (final_state (run_dirs fs (take k model_dirs) \<lparr>out = [], results = []\<rparr>))"
    by blast
  have sub: "set (take k model_dirs) \<subseteq> set model_dirs"
    by (rule set_take_subset)
  have rec: "\<forall>e\<in>set (results st). recorded fs e"
    unfolding k using run_dirs_recorded [OF sub, of "\<lparr>out = [], results = []\<rparr>" fs] by simp
  have dist: "distinct (map fst (results st))"
    unfolding k using run_dirs_distinct [of "\<lparr>out = [], results = []\<rparr>" fs "take k model_dirs"] by simp
  have "fst e \<in> {''k2'', ''kepler'', ''tess''} \<and> map fst (snd e) = info_keys"
    if "e \<in> set (results st)" for e
  proof -
    from rec that have "recorded fs e" by blast
    then obtain d entries where "d \<in> set model_dirs" "fst e = last_segment d" "selected entries (snd e)"
      unfolding recorded_def by blast
    then show ?thesis using last_segment_names selected_keys by metis
  qed
  with dist show ?thesis by blast
qed

theorem summary_shape_witness:
  "results (final_state (check_model_performance (k2_only (Inr example_ab)))) =
     [(''k2'', [(''model_name'', PStr ''B''), (''accuracy'', PFloat (Fin (85 / 100))),
                (''precision'', PInt 0), (''recall'', PInt 0),
                (''f1_score'', PFloat (Fin (95 / 100))), (''roc_auc'', PInt 0),
                (''cv_mean'', PInt 0), (''cv_std'', PInt 0)])]
   \<and> distinct (map fst (results (final_state (check_model_performance (k2_only (Inr example_ab))))))
   \<and> fst (hd (results (final_state (check_model_performance (k2_only (Inr example_ab))))))
         \<in> {''k2'', ''kepler'', ''tess''}
   \<and> map fst (snd (hd (results (final_state (check_model_performance (k2_only (Inr example_ab)))))))
         = info_keys"
proof -
  have r: "results (final_state (check_model_performance (k2_only (Inr example_ab)))) =
     [(''k2'', [(''model_name'', PStr ''B''), (''accuracy'', PFloat (Fin (85 / 100))),
                (''precision'', PInt 0), (''recall'', PInt 0),
                (''f1_score'', PFloat (Fin (95 / 100))), (''roc_auc'', PInt 0),
                (''cv_mean'', PInt 0), (''cv_std'', PInt 0)])]"
    by (simp add: run_defs k2_only_def example_ab_def)
  then have "hd (results (final_state (check_model_performance (k2_only (Inr example_ab)))))
      \<in> set (results (final_state (check_model_performance (k2_only (Inr example_ab)))))"
    by simp
  then show ?thesis
    using r summary_shape [of "final_state (check_model_performance (k2_only (Inr example_ab)))"
        "k2_only (Inr example_ab)" 3]
    by blast
qed

text \<open>
  C9. Every summary entry of the run holds an F1 score that compares greater than 0; and
  a results mapping in which no entry has an F1 score greater than 0 leaves the summary
  as it was.
\<close>

theorem recorded_f1_positive:
  "(\<forall>e\<in>set (results (final_state (check_model_performance fs))).
      \<exists>f. map_of (snd e) ''f1_score'' = Some f \<and> py_gt f (PInt 0) = Some True)
   \<and> (joblib_load fs rf = Inr (PDict entries)
        \<and> (\<forall>e\<in>set entries. \<forall>g. f1_of (snd e) = Some g \<longrightarrow> py_gt g (PInt 0) \<noteq> Some True)
      \<longrightarrow> results (load_and_report fs mn rf st) = results st)"
proof -
  have a: "\<exists>f. map_of (snd e) ''f1_score'' = Some f \<and> py_gt f (PInt 0) = Some True"
    if "e \<in> set (results (final_state (check_model_performance fs)))" for e
  proof -
    from that have "recorded fs e" by (rule check_recorded)
    then obtain entries where "selected entries (snd e)"
      unfolding recorded_def by blast
    then show ?thesis by (rule selected_f1)
  qed
  have b: "results (load_and_report fs mn rf st) = results st"
    if l: "joblib_load fs rf = Inr (PDict entries)"
      and n: "\<forall>e\<in>set entries. \<forall>g. f1_of (snd e) = Some g \<longrightarrow> py_gt g (PInt 0) \<noteq> Some True"
  proof -
    have "\<not> selected entries info" for info
      unfolding selected_def using n by fastforce
    with load_and_report_results [of fs mn rf st] l show ?thesis by auto
  qed
  from a b show ?thesis by blast
qed

theorem recorded_f1_positive_witness:
  "(\<exists>f. map_of (snd (hd (results (final_state (check_model_performance (k2_only (Inr example_ab)))))))
          ''f1_score'' = Some f \<and> py_gt f (PInt 0) = Some True)
   \<and> results (final_state (check_model_performance (k2_only (Inr example_ab)))) \<noteq> []
   \<and> results (load_and_report
        (k2_only (Inr (PDict [(''A'', PDict [(''f1_score'', PFloat (Fin 0))]),
                              (''B'', PDict [(''f1_score'', PInt (- 1))])])))
        ''k2'' ''models/k2/model_results.joblib'' \<lparr>out = [], results = []\<rparr>) = []"
proof -
  have ne: "results (final_state (check_model_performance (k2_only (Inr example_ab)))) \<noteq> []"
    by (simp add: run_defs k2_only_def example_ab_def)
  have ld: "joblib_load (k2_only (Inr (PDict [(''A'', PDict [(''f1_score'', PFloat (Fin 0))]),
                              (''B'', PDict [(''f1_score'', PInt (- 1))])]))) ''models/k2/model_results.joblib''
      = Inr (PDict [(''A'', PDict [(''f1_score'', PFloat (Fin 0))]), (''B'', PDict [(''f1_score'', PInt (- 1))])])"
    by (simp add: k2_only_def)
  have le: "\<forall>e\<in>set [(''A'', PDict [(''f1_score'', PFloat (Fin 0))]), (''B'', PDict [(''f1_score'', PInt (- 1))])].
      \<forall>g. f1_of (snd e) = Some g \<longrightarrow> py_gt g (PInt 0) \<noteq> Some True"
    by (simp add: py_gt_def)
  have "results (load_and_report
        (k2_only (Inr (PDict [(''A'', PDict [(''f1_score'', PFloat (Fin 0))]),
                              (''B'', PDict [(''f1_score'', PInt (- 1))])])))
        ''k2'' ''models/k2/model_results.joblib'' \<lparr>out = [], results = []\<rparr>) =
      results \<lparr>out = [], results = []\<rparr>"
    using recorded_f1_positive [where
        fs = "k2_only (Inr (PDict [(''A'', PDict [(''f1_score'', PFloat (Fin 0))]),
                                   (''B'', PDict [(''f1_score'', PInt (- 1))])]))"
        and rf = "''models/k2/model_results.joblib''"
        and entries = "[(''A'', PDict [(''f1_score'', PFloat (Fin 0))]), (''B'', PDict [(''f1_score'', PInt (- 1))])]"
        and mn = "''k2''" and st = "\<lparr>out = [], results = []\<rparr>"] ld le
    by blast
  then have two: "results (load_and_report
        (k2_only (Inr (PDict [(''A'', PDict [(''f1_score'', PFloat (Fin 0))]),
                              (''B'', PDict [(''f1_score'', PInt (- 1))])])))
        ''k2'' ''models/k2/model_results.joblib'' \<lparr>out = [], results = []\<rparr>) = []"
    by simp
  have one: "\<forall>e\<in>set (results (final_state (check_model_performance (k2_only (Inr example_ab))))).
      \<exists>f. map_of (snd e) ''f1_score'' = Some f \<and> py_gt f (PInt 0) = Some True"
    using recorded_f1_positive [of "k2_only (Inr example_ab)"] by blast
  from ne have "hd (results (final_state (check_model_performance (k2_only (Inr example_ab)))))
      \<in> set (results (final_state (check_model_performance (k2_only (Inr example_ab)))))"
    by (rule hd_in_set)
  with one have "\<exists>f. map_of (snd (hd (results (final_state (check_model_performance (k2_only (Inr example_ab)))))))
      ''f1_score'' = Some f \<and> py_gt f (PInt 0) = Some True"
    by blast
  with ne two show ?thesis by blast
qed

section \<open>The selected entry\<close>

lemma selected_entry:
  assumes "selected entries info"
  obtains name m f where "(name, PDict m) \<in> set entries" and "map_of m ''f1_score'' = Some f"
    and "info = make_info name m"
    and "\<forall>e\<in>set entries. \<forall>g. f1_of (snd e) = Some g \<longrightarrow> py_gt g f = Some False"
proof -
  from assms obtain name v f where h: "(name, v) \<in> set entries" "f1_of v = Some f"
      "info = make_info name (metrics_of v)"
      "\<forall>e\<in>set entries. \<forall>g. f1_of (snd e) = Some g \<longrightarrow> py_gt g f = Some False"
    unfolding selected_def by blast
  from h(2) obtain m where "v = PDict m" "map_of m ''f1_score'' = Some f"
    by (cases v) simp_all
  with h that show ?thesis by simp
qed

lemma make_info_default:
  "key \<in> set optional_fields \<Longrightarrow> map_of m key = None \<Longrightarrow> map_of (make_info name m) key = Some (PInt 0)"
  unfolding optional_fields_def make_info_def get_default_def
  by (elim disjE | simp)+

lemma make_info_name: "map_of (make_info name m) ''model_name'' = Some (PStr name)"
  by (simp add: make_info_def)


text \<open>
  C5. Every summary entry of the run was built from an entry of a loaded results mapping
  whose F1 score no other entry exceeds; it carries that entry's name, and each of the
  fields \<open>accuracy\<close>, \<open>precision\<close>, \<open>recall\<close>, \<open>roc_auc\<close>, \<open>cv_mean\<close>, \<open>cv_std\<close> that
  the entry's metrics mapping lacks is present in the summary entry with the integer 0.
\<close>

theorem missing_fields_default_to_zero:
  assumes "(k, info) \<in> set (results (final_state (check_model_performance fs)))"
  shows "\<exists>rf entries name m f.
           joblib_load fs rf = Inr (PDict entries) \<and> (name, PDict m) \<in> set entries
         \<and> map_of m ''f1_score'' = Some f
         \<and> (\<forall>e\<in>set entries. \<forall>g. f1_of (snd e) = Some g \<longrightarrow> py_gt g f = Some False)
         \<and> map_of info ''model_name'' = Some (PStr name)
         \<and> (\<forall>key\<in>set optional_fields. map_of m key = None \<longrightarrow> map_of info key = Some (PInt 0))"
proof -
  from assms have "recorded fs (k, info)" by (rule check_recorded)
  then obtain rf entries where l: "joblib_load fs rf = Inr (PDict entries)"
    and s: "selected entries info"
    unfolding recorded_def by auto
  from s obtain name m f where h: "(name, PDict m) \<in> set entries" "map_of m ''f1_score'' = Some f"
      "info = make_info name m"
      "\<forall>e\<in>set entries. \<forall>g. f1_of (snd e) = Some g \<longrightarrow> py_gt g f = Some False"
    by (rule selected_entry)
  have "\<forall>key\<in>set optional_fields. map_of m key = None \<longrightarrow> map_of info key = Some (PInt 0)"
    unfolding h(3) using make_info_default by blast
  with l h show ?thesis using make_info_name by blast
qed

theorem missing_fields_default_to_zero_witness:
  "(''k2'', [(''model_name'', PStr ''B''), (''accuracy'', PFloat (Fin (85 / 100))),
             (''precision'', PInt 0), (''recall'', PInt 0),
             (''f1_score'', PFloat (Fin (95 / 100))), (''roc_auc'', PInt 0),
             (''cv_mean'', PInt 0), (''cv_std'', PInt 0)])
     \<in> set (results (final_state (check_model_performance (k2_only (Inr example_ab)))))
   \<and> (\<exists>m. (''B'', PDict m) \<in> set [(''A'', PDict [(''f1_score'', PFloat (Fin (8 / 10))), (''accuracy'', PFloat (Fin (9 / 10)))]),
            (''B'', PDict [(''f1_score'', PFloat (Fin (95 / 100))), (''accuracy'', PFloat (Fin (85 / 100)))])]
        \<and> map_of m ''precision'' = None)"
proof -
  have mem: "(''k2'', [(''model_name'', PStr ''B''), (''accuracy'', PFloat (Fin (85 / 100))),
             (''precision'', PInt 0), (''recall'', PInt 0),
             (''f1_score'', PFloat (Fin (95 / 100))), (''roc_auc'', PInt 0),
             (''cv_mean'', PInt 0), (''cv_std'', PInt 0)])
     \<in> set (results (final_state (check_model_performance (k2_only (Inr example_ab)))))"
    by (simp add: run_defs k2_only_def example_ab_def)
  from missing_fields_default_to_zero [OF mem]
  obtain rf entries name m where h: "joblib_load (k2_only (Inr example_ab)) rf = Inr (PDict entries)"
      "(name, PDict m) \<in> set entries"
      "map_of [(''model_name'', PStr ''B''), (''accuracy'', PFloat (Fin (85 / 100))),
             (''precision'', PInt 0), (''recall'', PInt 0),
             (''f1_score'', PFloat (Fin (95 / 100))), (''roc_auc'', PInt 0),
             (''cv_mean'', PInt 0), (''cv_std'', PInt 0)] ''model_name'' = Some (PStr name)"
    by blast
  from h(3) have n: "name = ''B''" by simp
  from h(1) have e: "entries = [(''A'', PDict [(''f1_score'', PFloat (Fin (8 / 10))), (''accuracy'', PFloat (Fin (9 / 10)))]),
            (''B'', PDict [(''f1_score'', PFloat (Fin (95 / 100))), (''accuracy'', PFloat (Fin (85 / 100)))])]"
    by (simp add: k2_only_def example_ab_def)
  from h(2) have "map_of m ''precision'' = None" unfolding n e by auto
  with h(2) mem show ?thesis unfolding n e by blast
qed

section \<open>Selection of the first maximum\<close>








section \<open>The run after a failed load\<close>

lemma process_dir_done:
  "(path_exists fs d \<longrightarrow> listdir fs d \<noteq> None) \<Longrightarrow> \<exists>st'. process_dir fs d st = Done st'"
  by (auto simp: process_dir_def)

lemma run_dirs_done:
  "\<forall>d\<in>set ds. path_exists fs d \<longrightarrow> listdir fs d \<noteq> None \<Longrightarrow> \<exists>st'. run_dirs fs ds st = Done st'"
proof (induction ds arbitrary: st)
  case Nil
  then show ?case by simp
next
  case (Cons d ds)
  then obtain st1 where "process_dir fs d st = Done st1"
    using process_dir_done [of fs d st] by auto
  with Cons show ?case by simp
qed

lemma run_dirs_out_mono: "set (out st) \<subseteq> set (out (final_state (run_dirs fs ds st)))"
proof (induction ds arbitrary: st)
  case Nil
  then show ?case by simp
next
  case (Cons d ds)
  obtain ls where ls: "out (final_state (process_dir fs d st)) = out st @ ls"
    using process_dir_out by blast
  show ?case
  proof (cases "process_dir fs d st")
    case (Done st1)
    with ls have "set (out st) \<subseteq> set (out st1)" by auto
    with Cons.IH [of st1] Done show ?thesis by auto
  next
    case (Raised e st1)
    with ls show ?thesis by auto
  qed
qed

lemma run_dirs_emits:
  assumes "\<forall>d\<in>set ds. path_exists fs d \<longrightarrow> listdir fs d \<noteq> None"
    and "d \<in> set ds"
    and "\<And>st. l \<in> set (out (final_state (process_dir fs d st)))"
  shows "l \<in> set (out (final_state (run_dirs fs ds st)))"
  using assms(1,2)
proof (induction ds arbitrary: st)
  case Nil
  then show ?case by simp
next
  case (Cons x ds)
  from Cons.prems(1) obtain st1 where st1: "process_dir fs x st = Done st1"
    using process_dir_done [of fs x st] by auto
  then have run: "run_dirs fs (x # ds) st = run_dirs fs ds st1" by simp
  show ?case
  proof (cases "x = d")
    case True
    have "l \<in> set (out st1)" using assms(3) [of st] st1 True by simp
    then show ?thesis unfolding run using run_dirs_out_mono [of st1 fs ds] by blast
  next
    case False
    with Cons.prems have "d \<in> set ds" "\<forall>d\<in>set ds. path_exists fs d \<longrightarrow> listdir fs d \<noteq> None"
      by auto
    then show ?thesis unfolding run using Cons.IH by blast
  qed
qed

lemma load_and_report_contrib:
  "results (load_and_report fs mn rf st) =
     (case map_of (results (load_and_report fs mn rf \<lparr>out = [], results = []\<rparr>)) mn of
        None \<Rightarrow> results st
      | Some info \<Rightarrow> AList.update mn info (results st))"
  by (simp add: load_and_report_def emit_def split: sum.splits pyval.splits option.splits)

lemma process_dir_contrib:
  "results (final_state (process_dir fs d st)) =
     (case contribution fs d of
        None \<Rightarrow> results st
      | Some info \<Rightarrow> AList.update (last_segment d) info (results st))"
proof (cases "path_exists fs d")
  case False
  then show ?thesis by (simp add: contribution_def process_dir_def)
next
  case True
  show ?thesis
  proof (cases "listdir fs d")
    case None
    with True show ?thesis by (simp add: contribution_def process_dir_def)
  next
    case (Some files)
    show ?thesis
    proof (cases "find_results_file d files")
      case None
      with True Some show ?thesis by (simp add: contribution_def process_dir_def emit_def)
    next
      case rf: (Some rf)
      show ?thesis
      proof (cases "path_exists fs rf")
        case False
        with True Some rf show ?thesis by (simp add: contribution_def process_dir_def emit_def)
      next
        case T: True
        have "results (final_state (process_dir fs d st)) =
            results (load_and_report fs (last_segment d) rf st)" for st
          using True Some rf T by (simp add: process_dir_def emit_def)
        then show ?thesis
          unfolding contribution_def
          using load_and_report_contrib [of fs "last_segment d" rf st] by simp
      qed
    qed
  qed
qed

lemma process_dir_other_key:
  "k \<noteq> last_segment d \<Longrightarrow>
     map_of (results (final_state (process_dir fs d st))) k = map_of (results st) k"
  by (simp add: process_dir_contrib update_conv' split: option.splits)

lemma process_dir_own_key:
  "map_of (results (final_state (process_dir fs d st))) (last_segment d) =
     (case contribution fs d of None \<Rightarrow> map_of (results st) (last_segment d) | Some info \<Rightarrow> Some info)"
  by (simp add: process_dir_contrib update_conv' split: option.splits)

lemma run_dirs_other_key:
  "k \<notin> last_segment ` set ds \<Longrightarrow>
     map_of (results (final_state (run_dirs fs ds st))) k = map_of (results st) k"
proof (induction ds arbitrary: st)
  case Nil
  then show ?case by simp
next
  case (Cons d ds)
  then have k: "k \<noteq> last_segment d" "k \<notin> last_segment ` set ds" by auto
  note step = process_dir_other_key [OF k(1), of fs st]
  show ?case
  proof (cases "process_dir fs d st")
    case (Done st1)
    with step Cons.IH [OF k(2), of st1] show ?thesis by simp
  next
    case (Raised e st1)
    with step show ?thesis by simp
  qed
qed

lemma run_dirs_contrib:
  assumes "\<forall>d\<in>set ds. path_exists fs d \<longrightarrow> listdir fs d \<noteq> None"
    and "distinct (map last_segment ds)"
    and "d \<in> set ds"
  shows "map_of (results (final_state (run_dirs fs ds st))) (last_segment d) =
     (case contribution fs d of None \<Rightarrow> map_of (results st) (last_segment d) | Some info \<Rightarrow> Some info)"
  using assms
proof (induction ds arbitrary: st)
  case Nil
  then show ?case by simp
next
  case (Cons x ds)
  from Cons.prems(1) obtain st1 where st1: "process_dir fs x st = Done st1"
    using process_dir_done [of fs x st] by auto
  then have run: "run_dirs fs (x # ds) st = run_dirs fs ds st1" by simp
  show ?case
  proof (cases "x = d")
    case True
    with Cons.prems(2) have "last_segment d \<notin> last_segment ` set ds" by auto
    then have "map_of (results (final_state (run_dirs fs ds st1))) (last_segment d) =
        map_of (results st1) (last_segment d)"
      by (rule run_dirs_other_key)
    moreover have "map_of (results st1) (last_segment d) =
        (case contribution fs d of None \<Rightarrow> map_of (results st) (last_segment d) | Some info \<Rightarrow> Some info)"
      using process_dir_own_key [of fs d st] st1 True by simp
    ultimately show ?thesis unfolding run by simp
  next
    case False
    with Cons.prems have d: "d \<in> set ds" and l: "\<forall>d\<in>set ds. path_exists fs d \<longrightarrow> listdir fs d \<noteq> None"
      and di: "distinct (map last_segment ds)" and nx: "last_segment x \<notin> last_segment ` set ds"
      by auto
    have ne: "last_segment d \<noteq> last_segment x"
    proof
      assume "last_segment d = last_segment x"
      with d have "last_segment x \<in> last_segment ` set ds" by (metis imageI)
      with nx show False by simp
    qed
    have "map_of (results st1) (last_segment d) = map_of (results st) (last_segment d)"
      using process_dir_other_key [OF ne, of fs st] st1 by simp
    with Cons.IH [OF l di d, of st1] show ?thesis unfolding run
      by (cases "contribution fs d") simp_all
  qed
qed

lemma model_dirs_distinct: "distinct (map last_segment model_dirs)"
  by (simp add: model_dirs_def last_segment_def)

lemma check_done:
  assumes "\<forall>d\<in>set model_dirs. path_exists fs d \<longrightarrow> listdir fs d \<noteq> None" and "can_write fs"
  shows "\<exists>st0. run_dirs fs model_dirs \<lparr>out = [], results = []\<rparr> = Done st0
             \<and> check_model_performance fs = Done (emit [SavedLine] st0)
             \<and> summary_file fs = Some (to_json (summary_value (results st0)))"
proof -
  obtain st0 where "run_dirs fs model_dirs \<lparr>out = [], results = []\<rparr> = Done st0"
    using run_dirs_done [OF assms(1)] by blast
  then show ?thesis
    using assms(2)
    by (simp add: check_model_performance_def check_model_performance_io_def
        summary_file_def write_summary_def)
qed

text \<open>
  C3. When \<^verbatim>\<open>joblib.load\<close> raises on the results file of a directory, the exception is
  caught: the iteration ends normally, its only output before the directory listing is
  the error line with the path of the file and the text of the exception, and the summary
  is unchanged. If moreover the directory is a configured one, every existing configured
  directory can be listed and the summary file can be written, then the run does not
  abort: it returns, its output holds the error line, the listing header of every
  existing configured directory and the final line, and the summary has no entry for
  the failing directory and, for every configured directory, exactly the entry that the
  iteration for that directory writes.
\<close>

theorem load_failure_is_caught:
  assumes "path_exists fs d" and "listdir fs d = Some files"
    and "find_results_file d files = Some rf" and "path_exists fs rf"
    and "joblib_load fs rf = Inl msg"
  shows "process_dir fs d st =
           Done (st\<lparr>out := out st @ ErrorLine rf (LoadError msg) # listing d files\<rparr>)
       \<and> (d \<in> set model_dirs \<and> can_write fs
            \<and> (\<forall>d'\<in>set model_dirs. path_exists fs d' \<longrightarrow> listdir fs d' \<noteq> None)
          \<longrightarrow> (\<exists>st'. check_model_performance fs = Done st'
                \<and> ErrorLine rf (LoadError msg) \<in> set (out st')
                \<and> map_of (results st') (last_segment d) = None
                \<and> (\<forall>d'\<in>set model_dirs.
                      map_of (results st') (last_segment d') = contribution fs d'
                    \<and> (path_exists fs d' \<longrightarrow> FilesHeader d' \<in> set (out st')))
                \<and> SavedLine \<in> set (out st')))"
proof -
  have "load_and_report fs (last_segment d) rf st = emit [ErrorLine rf (LoadError msg)] st" for st
    using assms(5) by (simp add: load_and_report_def)
  then have step: "process_dir fs d st =
      Done (st\<lparr>out := out st @ ErrorLine rf (LoadError msg) # listing d files\<rparr>)" for st
    using process_dir_present [OF assms(1-4), of st] by (simp add: emit_def)
  have whole: "\<exists>st'. check_model_performance fs = Done st'
                \<and> ErrorLine rf (LoadError msg) \<in> set (out st')
                \<and> map_of (results st') (last_segment d) = None
                \<and> (\<forall>d'\<in>set model_dirs.
                      map_of (results st') (last_segment d') = contribution fs d'
                    \<and> (path_exists fs d' \<longrightarrow> FilesHeader d' \<in> set (out st')))
                \<and> SavedLine \<in> set (out st')"
    if d: "d \<in> set model_dirs" and w: "can_write fs"
      and l: "\<forall>d'\<in>set model_dirs. path_exists fs d' \<longrightarrow> listdir fs d' \<noteq> None"
  proof -
    let ?init = "\<lparr>out = [], results = []\<rparr>"
    obtain st0 where st0: "run_dirs fs model_dirs ?init = Done st0"
      and chk: "check_model_performance fs = Done (emit [SavedLine] st0)"
      using check_done [OF l w] by blast
    have fin: "final_state (run_dirs fs model_dirs ?init) = st0" using st0 by simp
    have err: "ErrorLine rf (LoadError msg) \<in> set (out st0)"
      using run_dirs_emits [OF l d, of "ErrorLine rf (LoadError msg)" ?init] step
      unfolding fin by simp
    have contrib: "map_of (results st0) (last_segment d') = contribution fs d'"
      if "d' \<in> set model_dirs" for d'
      using run_dirs_contrib [OF l model_dirs_distinct that, of ?init]
      unfolding fin by (cases "contribution fs d'") simp_all
    have "contribution fs d = None"
      unfolding contribution_def using step [of ?init] by simp
    then have none: "map_of (results st0) (last_segment d) = None"
      using contrib [OF d] by simp
    have hdr: "FilesHeader d' \<in> set (out st0)"
      if d': "d' \<in> set model_dirs" and e: "path_exists fs d'" for d'
    proof -
      from l d' e obtain files' where f: "listdir fs d' = Some files'" by auto
      have "FilesHeader d' \<in> set (out (final_state (process_dir fs d' st)))" for st
        using process_dir_listing [OF e f, of st] by (auto simp: emit_def listing_def)
      then show ?thesis
        using run_dirs_emits [OF l d', of "FilesHeader d'" ?init] unfolding fin by simp
    qed
    let ?st = "emit [SavedLine] st0"
    have "ErrorLine rf (LoadError msg) \<in> set (out ?st)" using err by (simp add: emit_def)
    moreover have "map_of (results ?st) (last_segment d) = None" using none by (simp add: emit_def)
    moreover have "\<forall>d'\<in>set model_dirs.
        map_of (results ?st) (last_segment d') = contribution fs d'
        \<and> (path_exists fs d' \<longrightarrow> FilesHeader d' \<in> set (out ?st))"
      using contrib hdr by (simp add: emit_def)
    moreover have "SavedLine \<in> set (out ?st)" by (simp add: emit_def)
    ultimately show ?thesis using chk by blast
  qed
  from step [of st] whole show ?thesis by blast
qed

theorem load_failure_is_caught_witness:
  "\<exists>st'. check_model_performance (k2_broken_tess_ok example_ab) = Done st'
     \<and> ErrorLine ''models/k2/model_results.joblib'' (LoadError ''invalid load key'') \<in> set (out st')
     \<and> map_of (results st') ''k2'' = None
     \<and> FilesHeader ''models/tess'' \<in> set (out st')
     \<and> map_of (results st') ''tess'' =
         Some [(''model_name'', PStr ''B''), (''accuracy'', PFloat (Fin (85 / 100))),
               (''precision'', PInt 0), (''recall'', PInt 0),
               (''f1_score'', PFloat (Fin (95 / 100))), (''roc_auc'', PInt 0),
               (''cv_mean'', PInt 0), (''cv_std'', PInt 0)]"
proof -
  let ?fs = "k2_broken_tess_ok example_ab"
  have h: "path_exists ?fs ''models/k2''" "listdir ?fs ''models/k2'' = Some [''model_results.joblib'']"
      "find_results_file ''models/k2'' [''model_results.joblib''] = Some ''models/k2/model_results.joblib''"
      "path_exists ?fs ''models/k2/model_results.joblib''"
      "joblib_load ?fs ''models/k2/model_results.joblib'' = Inl ''invalid load key''"
    by (simp_all add: k2_broken_tess_ok_def path_join_def endswith_def)
  have g: "''models/k2'' \<in> set model_dirs" "can_write ?fs"
      "\<forall>d'\<in>set model_dirs. path_exists ?fs d' \<longrightarrow> listdir ?fs d' \<noteq> None"
    by (simp_all add: k2_broken_tess_ok_def model_dirs_def)
  have seg: "last_segment ''models/k2'' = ''k2''" "last_segment ''models/tess'' = ''tess''"
    by (simp_all add: last_segment_def)
  have tess: "''models/tess'' \<in> set model_dirs" "path_exists ?fs ''models/tess''"
    by (simp_all add: k2_broken_tess_ok_def model_dirs_def)
  have c: "contribution ?fs ''models/tess'' =
         Some [(''model_name'', PStr ''B''), (''accuracy'', PFloat (Fin (85 / 100))),
               (''precision'', PInt 0), (''recall'', PInt 0),
               (''f1_score'', PFloat (Fin (95 / 100))), (''roc_auc'', PInt 0),
               (''cv_mean'', PInt 0), (''cv_std'', PInt 0)]"
    by (simp add: contribution_def run_defs k2_broken_tess_ok_def example_ab_def)
  from load_failure_is_caught [OF h, of "\<lparr>out = [], results = []\<rparr>"] g
  obtain st' where st': "check_model_performance ?fs = Done st'"
      "ErrorLine ''models/k2/model_results.joblib'' (LoadError ''invalid load key'') \<in> set (out st')"
      "map_of (results st') (last_segment ''models/k2'') = None"
      "\<forall>d'\<in>set model_dirs. map_of (results st') (last_segment d') = contribution ?fs d'
          \<and> (path_exists ?fs d' \<longrightarrow> FilesHeader d' \<in> set (out st'))"
    by blast
  from st'(4) tess have "map_of (results st') (last_segment ''models/tess'') = contribution ?fs ''models/tess''"
      "FilesHeader ''models/tess'' \<in> set (out st')"
    by blast+
  with st'(1-3) c seg show ?thesis by auto
qed

section \<open>The summary file\<close>

lemma fmt_f_scalar: "fmt_f v = None \<Longrightarrow> scalar v"
  by (cases v) simp_all

lemma fmt_pct_scalar: "fmt_pct v = None \<Longrightarrow> scalar v"
  by (cases "fmt_f v") (simp_all add: fmt_pct_def fmt_f_scalar)

lemma pct_line_scalar:
  "pct_line info label key = Inr l \<Longrightarrow> \<exists>v. map_of info key = Some v \<and> scalar v"
  by (auto simp: pct_line_def fmt_pct_scalar split: option.splits)

lemma cv_line_scalar:
  "cv_line info = Inr l \<Longrightarrow>
     (\<exists>v. map_of info ''cv_mean'' = Some v \<and> scalar v) \<and> (\<exists>v. map_of info ''cv_std'' = Some v \<and> scalar v)"
  by (auto simp: cv_line_def fmt_f_scalar split: option.splits)

lemma report_scalar:
  assumes "snd (print_all (report_lines s)) = None"
  shows "\<forall>key\<in>set (pct_keys @ cv_keys). \<exists>v. map_of (model_info s) key = Some v \<and> scalar v"
proof -
  have pct: "\<exists>v. map_of (model_info s) key = Some v \<and> scalar v"
    if "pct_line (model_info s) label key \<in> set (report_lines s)" for label key
  proof -
    from print_all_ok [OF assms that] obtain l where "pct_line (model_info s) label key = Inr l"
      by blast
    then show ?thesis by (rule pct_line_scalar)
  qed
  have "cv_line (model_info s) \<in> set (report_lines s)" by (simp add: report_lines_def)
  from print_all_ok [OF assms this] obtain l where "cv_line (model_info s) = Inr l" by blast
  then have cv: "(\<exists>v. map_of (model_info s) ''cv_mean'' = Some v \<and> scalar v)
      \<and> (\<exists>v. map_of (model_info s) ''cv_std'' = Some v \<and> scalar v)"
    by (rule cv_line_scalar)
  have a: "\<exists>v. map_of (model_info s) ''accuracy'' = Some v \<and> scalar v"
    by (rule pct [of "''Accuracy''"]) (simp add: report_lines_def)
  have b: "\<exists>v. map_of (model_info s) ''precision'' = Some v \<and> scalar v"
    by (rule pct [of "''Precision''"]) (simp add: report_lines_def)
  have c: "\<exists>v. map_of (model_info s) ''recall'' = Some v \<and> scalar v"
    by (rule pct [of "''Recall''"]) (simp add: report_lines_def)
  have d: "\<exists>v. map_of (model_info s) ''f1_score'' = Some v \<and> scalar v"
    by (rule pct [of "''F1-Score''"]) (simp add: report_lines_def)
  have e: "\<exists>v. map_of (model_info s) ''roc_auc'' = Some v \<and> scalar v"
    by (rule pct [of "''ROC AUC''"]) (simp add: report_lines_def)
  from a b c d e cv show ?thesis
    by (simp add: pct_keys_def cv_keys_def)
qed

lemma make_info_wf:
  assumes "\<forall>key\<in>set (pct_keys @ cv_keys). \<exists>v. map_of (make_info name m) key = Some v \<and> scalar v"
  shows "info_wf (make_info name m)"
  using assms
  by (simp add: info_wf_def info_keys_def make_info_def pct_keys_def cv_keys_def)

lemma load_and_report_wf:
  "results (load_and_report fs mn rf st) = results st
   \<or> (\<exists>info. info_wf info \<and> results (load_and_report fs mn rf st) = AList.update mn info (results st))"
proof (cases "joblib_load fs rf")
  case (Inl msg)
  then show ?thesis by (simp add: load_and_report_def emit_def)
next
  case (Inr v)
  show ?thesis
  proof (cases "is_dict v")
    case False
    with Inr show ?thesis by (cases v) (simp_all add: load_and_report_def emit_def)
  next
    case True
    then obtain entries where v: "v = PDict entries" by (cases v) simp_all
    show ?thesis
    proof (cases "scan entries init_scan")
      case (Inl e)
      with Inr v show ?thesis by (simp add: load_and_report_def emit_def)
    next
      case s: (Inr s)
      show ?thesis
      proof (cases "snd (print_all (report_lines s))")
        case (Some e)
        with Inr v s show ?thesis by (simp add: load_and_report_def emit_def)
      next
        case None
        have "scanned entries s"
          using scan_scanned [OF s scanned_init] by simp
        moreover have "model_info s \<noteq> []"
          using report_needs_info [OF None] .
        ultimately obtain name m where "model_info s = make_info name m"
          unfolding scanned_def init_scan_def by fastforce
        with report_scalar [OF None] have "info_wf (model_info s)"
          using make_info_wf [of name m] by simp
        moreover have "results (load_and_report fs mn rf st) = AList.update mn (model_info s) (results st)"
          using Inr v s None by (simp add: load_and_report_def emit_def)
        ultimately show ?thesis by blast
      qed
    qed
  qed
qed

lemma process_dir_results_shape:
  "results (final_state (process_dir fs d st)) = results st
   \<or> (\<exists>rf. results (final_state (process_dir fs d st)) =
             results (load_and_report fs (last_segment d) rf st))"
  by (auto simp: process_dir_def emit_def split: option.splits)

lemma process_dir_wf:
  assumes "\<forall>e\<in>set (results st). info_wf (snd e)"
  shows "\<forall>e\<in>set (results (final_state (process_dir fs d st))). info_wf (snd e)"
proof -
  from process_dir_results_shape [of fs d st] show ?thesis
  proof
    assume "results (final_state (process_dir fs d st)) = results st"
    with assms show ?thesis by simp
  next
    assume "\<exists>rf. results (final_state (process_dir fs d st)) =
             results (load_and_report fs (last_segment d) rf st)"
    then obtain rf where rf: "results (final_state (process_dir fs d st)) =
             results (load_and_report fs (last_segment d) rf st)"
      by blast
    from load_and_report_wf [of fs "last_segment d" rf st] show ?thesis
    proof
      assume "results (load_and_report fs (last_segment d) rf st) = results st"
      with rf assms show ?thesis by simp
    next
      assume "\<exists>info. info_wf info \<and>
          results (load_and_report fs (last_segment d) rf st) = AList.update (last_segment d) info (results st)"
      then obtain info where i: "info_wf info"
          "results (load_and_report fs (last_segment d) rf st) = AList.update (last_segment d) info (results st)"
        by blast
      show ?thesis
        unfolding rf i(2) using update_set [of "last_segment d" info "results st"] i(1) assms by auto
    qed
  qed
qed

lemma run_dirs_wf:
  "\<forall>e\<in>set (results st). info_wf (snd e) \<Longrightarrow>
     \<forall>e\<in>set (results (final_state (run_dirs fs ds st))). info_wf (snd e)"
proof (induction ds arbitrary: st)
  case Nil
  then show ?case by simp
next
  case (Cons d ds)
  have step: "\<forall>e\<in>set (results (final_state (process_dir fs d st))). info_wf (snd e)"
    using process_dir_wf [OF Cons.prems] .
  show ?case
  proof (cases "process_dir fs d st")
    case (Done st')
    with step Cons.IH [of st'] show ?thesis by simp
  next
    case (Raised e st')
    with step show ?thesis by simp
  qed
qed

lemma scalar_round_trip: "scalar v \<Longrightarrow> from_json (to_json v) = v"
  by (cases v) simp_all

lemma items_round_trip:
  "list_all scalar (map snd m) \<Longrightarrow> from_json_items (to_json_items m) = m"
  by (induction m) (auto simp: scalar_round_trip)

lemma update_new: "k \<notin> fst ` set al \<Longrightarrow> AList.update k v al = al @ [(k, v)]"
  by (induction al) auto

lemma foldl_update_distinct:
  "distinct (map fst (acc @ m)) \<Longrightarrow>
     foldl (\<lambda>d kv. AList.update (fst kv) (snd kv) d) acc m = acc @ m"
proof (induction m arbitrary: acc)
  case Nil
  then show ?case by simp
next
  case (Cons x m)
  from Cons.prems have new: "fst x \<notin> fst ` set acc" by auto
  have "AList.update (fst x) (snd x) acc = acc @ [x]"
    using update_new [OF new, of "snd x"] by simp
  moreover from Cons.prems have "distinct (map fst ((acc @ [x]) @ m))" by simp
  ultimately show ?case using Cons.IH [of "acc @ [x]"] by simp
qed

lemma dict_round_trip:
  assumes "distinct (map fst m)" and "list_all scalar (map snd m)"
  shows "from_json (to_json (PDict m)) = PDict m"
  using assms foldl_update_distinct [of "[]" m] by (simp add: items_round_trip)

lemma info_round_trip: "info_wf info \<Longrightarrow> from_json (to_json (PDict info)) = PDict info"
  by (rule dict_round_trip) (simp_all add: info_wf_def info_keys_def)

lemma summary_items_round_trip:
  "\<forall>e\<in>set res. info_wf (snd e) \<Longrightarrow>
     from_json_items (to_json_items (map (\<lambda>e. (fst e, PDict (snd e))) res)) =
       map (\<lambda>e. (fst e, PDict (snd e))) res"
proof (induction res)
  case Nil
  then show ?case by simp
next
  case (Cons e res)
  then have "from_json (to_json (PDict (snd e))) = PDict (snd e)"
    using info_round_trip by simp
  with Cons show ?case by simp
qed

lemma fst_summary_item: "fst \<circ> (\<lambda>e. (fst e, PDict (snd e))) = fst"
  by (rule ext) simp

lemma summary_round_trip_struct:
  assumes "distinct (map fst res)" and "\<forall>e\<in>set res. info_wf (snd e)"
  shows "from_json (to_json (summary_value res)) = summary_value res"
proof -
  let ?m = "map (\<lambda>e. (fst e, PDict (snd e))) res"
  from assms(1) have "distinct (map fst ([] @ ?m))" by (simp add: fst_summary_item)
  then have "foldl (\<lambda>d kv. AList.update (fst kv) (snd kv) d) [] ?m = ?m"
    using foldl_update_distinct [of "[]" ?m] by simp
  then show ?thesis
    using summary_items_round_trip [OF assms(2)] by (simp add: summary_value_def)
qed

lemma scalar_eq_refl: "scalar v \<Longrightarrow> v \<noteq> PFloat NaN \<Longrightarrow> py_eq v v"
proof (cases v)
  case (PFloat x)
  assume "v \<noteq> PFloat NaN"
  with PFloat show ?thesis by (cases x) simp_all
qed simp_all

lemma items_in_sub:
  "\<forall>kv\<in>set xs. map_of b (fst kv) = Some (snd kv) \<and> py_eq (snd kv) (snd kv) \<Longrightarrow> items_in xs b"
  by (induction xs) auto

lemma dict_eq_refl:
  assumes "distinct (map fst m)" and "\<forall>kv\<in>set m. py_eq (snd kv) (snd kv)"
  shows "py_eq (PDict m) (PDict m)"
proof -
  have "\<forall>kv\<in>set m. map_of m (fst kv) = Some (snd kv)"
    using assms(1) by auto
  with assms(2) have "items_in m m" using items_in_sub [of m m] by blast
  then show ?thesis by simp
qed

lemma info_eq_refl:
  assumes "info_wf info" and "PFloat NaN \<notin> snd ` set info"
  shows "py_eq (PDict info) (PDict info)"
proof (rule dict_eq_refl)
  show "distinct (map fst info)" using assms(1) by (simp add: info_wf_def info_keys_def)
  show "\<forall>kv\<in>set info. py_eq (snd kv) (snd kv)"
  proof
    fix kv assume kv: "kv \<in> set info"
    with assms(1) have "scalar (snd kv)" by (auto simp: info_wf_def list_all_iff)
    moreover from kv assms(2) have "snd kv \<noteq> PFloat NaN" by force
    ultimately show "py_eq (snd kv) (snd kv)" by (rule scalar_eq_refl)
  qed
qed

lemma summary_eq_refl:
  assumes "distinct (map fst res)" and "\<forall>e\<in>set res. info_wf (snd e)"
    and "\<forall>e\<in>set res. PFloat NaN \<notin> snd ` set (snd e)"
  shows "py_eq (summary_value res) (summary_value res)"
  unfolding summary_value_def
proof (rule dict_eq_refl)
  show "distinct (map fst (map (\<lambda>e. (fst e, PDict (snd e))) res))"
    using assms(1) by (simp add: fst_summary_item)
  show "\<forall>kv\<in>set (map (\<lambda>e. (fst e, PDict (snd e))) res). py_eq (snd kv) (snd kv)"
    using assms(2,3) info_eq_refl by auto
qed

text \<open>
  C4 (amended). When the run returns and no recorded value is NaN, the summary file
  holds a JSON value that reads back to the returned mapping: the value read is the
  same key for key and value for value, ints as ints and floats as floats, and it is
  equal to the returned mapping under Python's \<open>==\<close>.
\<close>

theorem summary_round_trip:
  assumes "check_model_performance fs = Done st"
    and "\<forall>e\<in>set (results st). PFloat NaN \<notin> snd ` set (snd e)"
  shows "\<exists>j. summary_file fs = Some j
           \<and> from_json j = summary_value (results st)
           \<and> py_eq (from_json j) (summary_value (results st))"
proof -
  let ?init = "\<lparr>out = [], results = []\<rparr>"
  from assms(1) obtain st0 where run: "run_dirs fs model_dirs ?init = Done st0"
    and st: "st = emit [SavedLine] st0"
    and written: "summary_file fs = Some (to_json (summary_value (results st0)))"
    by (auto simp: check_model_performance_def check_model_performance_io_def summary_file_def
        write_summary_def split: outcome.splits sum.splits if_splits)
  have res: "results st = results st0" using st by (simp add: emit_def)
  have fin: "final_state (run_dirs fs model_dirs ?init) = st0" using run by simp
  have dist: "distinct (map fst (results st0))"
    using run_dirs_distinct [of ?init fs model_dirs] unfolding fin by simp
  have wf: "\<forall>e\<in>set (results st0). info_wf (snd e)"
    using run_dirs_wf [of ?init fs model_dirs] unfolding fin by simp
  have "from_json (to_json (summary_value (results st0))) = summary_value (results st0)"
    using summary_round_trip_struct [OF dist wf] .
  moreover have "py_eq (summary_value (results st0)) (summary_value (results st0))"
    using summary_eq_refl [OF dist wf] assms(2) unfolding res by simp
  ultimately show ?thesis using written res by simp
qed

theorem summary_round_trip_witness:
  "summary_file (k2_only (Inr example_ab)) =
     Some (JObj [(''k2'', JObj [(''model_name'', JStr ''B''), (''accuracy'', JFloat (Fin (85 / 100))),
                               (''precision'', JInt 0), (''recall'', JInt 0),
                               (''f1_score'', JFloat (Fin (95 / 100))), (''roc_auc'', JInt 0),
                               (''cv_mean'', JInt 0), (''cv_std'', JInt 0)])])
   \<and> (\<exists>j. summary_file (k2_only (Inr example_ab)) = Some j
         \<and> from_json j = summary_value (results (final_state (check_model_performance (k2_only (Inr example_ab)))))
         \<and> py_eq (from_json j)
             (summary_value (results (final_state (check_model_performance (k2_only (Inr example_ab)))))))"
proof -
  let ?fs = "k2_only (Inr example_ab)"
  let ?st = "\<lparr>out = [PerfHeader ''k2'', BestModelLine (Some ''B''),
      PctLine ''Accuracy'' (PFloat (Fin (85 / 100))),
      PctLine ''Precision'' (PInt 0), PctLine ''Recall'' (PInt 0),
      PctLine ''F1-Score'' (PFloat (Fin (95 / 100))),
      PctLine ''ROC AUC'' (PInt 0), CvLine (PInt 0) (PInt 0),
      FilesHeader ''models/k2'', FileLine ''best.joblib'',
      FileLine ''model_results.joblib'', SavedLine],
     results =
       [(''k2'',
         [(''model_name'', PStr ''B''),
          (''accuracy'', PFloat (Fin (85 / 100))), (''precision'', PInt 0),
          (''recall'', PInt 0), (''f1_score'', PFloat (Fin (95 / 100))),
          (''roc_auc'', PInt 0), (''cv_mean'', PInt 0),
          (''cv_std'', PInt 0)])]\<rparr>"
  have run: "check_model_performance ?fs = Done ?st"
    by (simp add: run_defs k2_only_def example_ab_def)
  have nn: "\<forall>e\<in>set (results ?st). PFloat NaN \<notin> snd ` set (snd e)"
    by simp
  have written: "summary_file ?fs =
     Some (JObj [(''k2'', JObj [(''model_name'', JStr ''B''), (''accuracy'', JFloat (Fin (85 / 100))),
                               (''precision'', JInt 0), (''recall'', JInt 0),
                               (''f1_score'', JFloat (Fin (95 / 100))), (''roc_auc'', JInt 0),
                               (''cv_mean'', JInt 0), (''cv_std'', JInt 0)])])"
    by (simp add: run_defs k2_only_def example_ab_def)
  have fin: "final_state (check_model_performance ?fs) = ?st" using run by simp
  from summary_round_trip [OF run nn] written show ?thesis unfolding fin by blast
qed

text \<open>
  C4 as stated fails: a metric that is NaN is recorded and written, and the value read
  back is not equal to the returned mapping, since NaN is unequal to itself.
\<close>

theorem nan_breaks_round_trip:
  "check_model_performance (k2_only (Inr example_nan)) =
     Done \<lparr>out = [PerfHeader ''k2'', BestModelLine (Some ''A''),
                  PctLine ''Accuracy'' (PInt 0), PctLine ''Precision'' (PInt 0),
                  PctLine ''Recall'' (PInt 0), PctLine ''F1-Score'' (PFloat (Fin (9 / 10))),
                  PctLine ''ROC AUC'' (PInt 0), CvLine (PFloat NaN) (PInt 0),
                  FilesHeader ''models/k2'', FileLine ''best.joblib'',
                  FileLine ''model_results.joblib'', SavedLine],
           results = [(''k2'', [(''model_name'', PStr ''A''), (''accuracy'', PInt 0),
                                (''precision'', PInt 0), (''recall'', PInt 0),
                                (''f1_score'', PFloat (Fin (9 / 10))), (''roc_auc'', PInt 0),
                                (''cv_mean'', PFloat NaN), (''cv_std'', PInt 0)])]\<rparr>
   \<and> summary_file (k2_only (Inr example_nan)) =
       Some (JObj [(''k2'', JObj [(''model_name'', JStr ''A''), (''accuracy'', JInt 0),
                                 (''precision'', JInt 0), (''recall'', JInt 0),
                                 (''f1_score'', JFloat (Fin (9 / 10))), (''roc_auc'', JInt 0),
                                 (''cv_mean'', JFloat NaN), (''cv_std'', JInt 0)])])
   \<and> \<not> py_eq
        (from_json (JObj [(''k2'', JObj [(''model_name'', JStr ''A''), (''accuracy'', JInt 0),
                                 (''precision'', JInt 0), (''recall'', JInt 0),
                                 (''f1_score'', JFloat (Fin (9 / 10))), (''roc_auc'', JInt 0),
                                 (''cv_mean'', JFloat NaN), (''cv_std'', JInt 0)])]))
        (summary_value [(''k2'', [(''model_name'', PStr ''A''), (''accuracy'', PInt 0),
                                (''precision'', PInt 0), (''recall'', PInt 0),
                                (''f1_score'', PFloat (Fin (9 / 10))), (''roc_auc'', PInt 0),
                                (''cv_mean'', PFloat NaN), (''cv_std'', PInt 0)])])"
  by (simp add: run_defs k2_only_def example_nan_def)

end
